theory Spec2Isabelle
  imports Complex_Main "HOL-Library.Log_Nat"
begin

unbundle bit_operations_syntax

section \<open>Python values used by \<^verbatim>\<open>nyaa/search.py\<close>\<close>

text \<open>
  Every way in which the two search functions can stop without a query:
  \<^verbatim>\<open>flask.abort(code)\<close> and the Python exceptions that the code does not catch.
\<close>

datatype error =
    Abort int
  | KeyError string
  | AttributeError string
  | ValueError
  | ZeroDivisionError
  | OverflowError

text \<open>
  Two kinds of strings. The search term and the category are Python strings as the code
  counts and classifies their characters: sequences of Unicode code points, here
  \<open>int list\<close> (the values of \<^verbatim>\<open>ord\<close>); \<open>ustr\<close> writes one from its ASCII text. The sort, order and quality
  parameters are only lowered and compared with ASCII keys; they are byte strings.
\<close>

definition ustr :: "string \<Rightarrow> int list" where
  "ustr s = map of_char s"

text \<open>
  \<^verbatim>\<open>str.lower()\<close> on the byte strings: only the ASCII letters \<open>A\<close>..\<open>Z\<close> change; every
  key the code compares with is ASCII.
\<close>

definition lower_char :: "char \<Rightarrow> char" where
  "lower_char c =
     (let n = (of_char c :: nat) in if 65 \<le> n \<and> n \<le> 90 then char_of (n + 32) else c)"

definition lower :: "string \<Rightarrow> string" where
  "lower s = map lower_char s"

definition is_digit :: "char \<Rightarrow> bool" where
  "is_digit c = (let n = (of_char c :: nat) in 48 \<le> n \<and> n \<le> 57)"

text \<open>\<^verbatim>\<open>int(s)\<close> on a byte string of ASCII digits.\<close>

definition int_of_digits :: "string \<Rightarrow> int" where
  "int_of_digits s = foldl (\<lambda>acc c. 10 * acc + (int (of_char c) - 48)) 0 s"

text \<open>
  \<^verbatim>\<open>int(s)\<close> as the code calls it on the quality filter: the value of a non-empty
  digit string; anything else is outside what the call site can pass and is a
  \<^verbatim>\<open>ValueError\<close> here.
\<close>

definition py_int :: "string \<Rightarrow> int option" where
  "py_int s = (if s \<noteq> [] \<and> list_all is_digit s then Some (int_of_digits s) else None)"

subsection \<open>Floating-point numbers\<close>

text \<open>
  A Python \<^verbatim>\<open>float\<close> is an IEEE 754 double: a rational number with a mantissa of 53
  bits. Conversion from \<^verbatim>\<open>int\<close> and division round the exact result to the nearest
  double, a tie to the one with the even mantissa. \<open>round_half_even n d\<close> is the integer
  nearest to \<open>n / d\<close>, for \<open>d > 0\<close>.
\<close>

definition round_half_even :: "int \<Rightarrow> int \<Rightarrow> int" where
  "round_half_even n d =
     (let q = n div d; r = n mod d in
      if 2 * r < d then q else if d < 2 * r then q + 1 else if even q then q else q + 1)"

text \<open>
  For \<open>a, b > 0\<close>, the exponent \<open>e\<close> of the last mantissa bit of the double nearest to
  \<open>a / b\<close>: the one with \<open>2^52 \<le> a / (b * 2^e) < 2^53\<close>.
\<close>

definition double_exponent :: "int \<Rightarrow> int \<Rightarrow> int" where
  "double_exponent a b =
     (let k = bitlen a - bitlen b;
          fits = (if 0 \<le> k then b * 2 ^ nat k \<le> a else b \<le> a * 2 ^ nat (- k))
      in (if fits then k else k - 1) - 52)"

definition round_double_pos :: "int \<Rightarrow> int \<Rightarrow> rat" where
  "round_double_pos a b =
     (let e = double_exponent a b in
      if 0 \<le> e then of_int (round_half_even a (b * 2 ^ nat e) * 2 ^ nat e)
      else of_int (round_half_even (a * 2 ^ nat (- e)) b) / of_int (2 ^ nat (- e)))"

text \<open>
  The double nearest to a rational number. The exponent is not bounded here: the
  conversion below raises where a double would overflow, and a quotient too small for a
  normal double is still not zero and keeps its sign, which is all its ceiling depends on.
\<close>

definition round_double :: "rat \<Rightarrow> rat" where
  "round_double x =
     (case quotient_of x of
        (a, b) \<Rightarrow>
          if a = 0 then 0
          else if 0 < a then round_double_pos a b
          else - round_double_pos (- a) b)"

text \<open>
  \<^verbatim>\<open>float(n)\<close>, and the conversion of the \<^verbatim>\<open>int\<close> operand of \<^verbatim>\<open>/\<close>:
  \<^verbatim>\<open>OverflowError\<close> when the nearest double would be \<open>2^1024\<close> or more.
\<close>

definition py_float :: "int \<Rightarrow> error + rat" where
  "py_float n =
     (let x = round_double (of_int n) in
      if 2 ^ 1024 \<le> \<bar>x\<bar> then Inl OverflowError else Inr x)"

text \<open>
  \<^verbatim>\<open>s[start:stop]\<close> on an \<^verbatim>\<open>elasticsearch_dsl\<close> search: a negative bound raises
  \<^verbatim>\<open>ValueError\<close>, otherwise the search holds the two bounds.
\<close>

definition search_slice :: "int \<Rightarrow> int \<Rightarrow> error + (int \<times> int)" where
  "search_slice start stop =
     (if start < 0 \<or> stop < 0 then Inl ValueError else Inr (start, stop))"

subsection \<open>\<^verbatim>\<open>shlex.split(term, posix=False)\<close>\<close>

text \<open>
  The standard library's tokenizer as \<^verbatim>\<open>shlex.split\<close> configures it
  (\<^verbatim>\<open>whitespace_split = True\<close>, no comment characters, non-POSIX mode): a state
  machine over the characters. Outside a token, whitespace is skipped; a quote character
  opens a quoted token, which keeps its quotes and ends at the matching quote; any other
  character opens a word, which runs up to the next whitespace (quotes inside a word are
  ordinary characters). Reaching the end of the input inside a quoted token raises
  \<^verbatim>\<open>ValueError("No closing quotation")\<close>.
\<close>

datatype lex_state = Space | Word | Quote int

text \<open>The tokenizer's whitespace: space, tab, carriage return, line feed.\<close>

definition is_whitespace :: "int \<Rightarrow> bool" where
  "is_whitespace c = (c = 32 \<or> c = 9 \<or> c = 13 \<or> c = 10)"

text \<open>Its quotes: the single and the double quote.\<close>

definition is_quote :: "int \<Rightarrow> bool" where
  "is_quote c = (c = 39 \<or> c = 34)"

fun read_tokens ::
  "lex_state \<Rightarrow> int list \<Rightarrow> int list list \<Rightarrow> int list \<Rightarrow> error + int list list" where
  "read_tokens Space token out [] = Inr out"
| "read_tokens Word token out [] = Inr (out @ [token])"
| "read_tokens (Quote q) token out [] = Inl ValueError"
| "read_tokens Space token out (c # cs) =
     (if is_whitespace c then read_tokens Space [] out cs
      else if is_quote c then read_tokens (Quote c) [c] out cs
      else read_tokens Word [c] out cs)"
| "read_tokens Word token out (c # cs) =
     (if is_whitespace c then read_tokens Space [] (out @ [token]) cs
      else read_tokens Word (token @ [c]) out cs)"
| "read_tokens (Quote q) token out (c # cs) =
     (if c = q then read_tokens Space [] (out @ [token @ [c]]) cs
      else read_tokens (Quote q) (token @ [c]) out cs)"

definition shlex_split :: "int list \<Rightarrow> error + int list list" where
  "shlex_split s = read_tokens Space [] [] s"

section \<open>The request and its collaborators\<close>

text \<open>A row of \<^verbatim>\<open>models.User\<close>; the code reads only its \<^verbatim>\<open>id\<close>.\<close>

record user_row =
  user_id :: int

text \<open>
  The keyword arguments of \<^verbatim>\<open>search_elastic\<close> and \<^verbatim>\<open>search_db\<close>
  (\<^verbatim>\<open>term\<close>, \<^verbatim>\<open>sort\<close> and \<^verbatim>\<open>order\<close> carry a suffix).
  \<^verbatim>\<open>search_db\<close> has no \<^verbatim>\<open>max_search_results\<close> and never reads it.
\<close>

record search_args =
  term_arg :: "int list"
  user :: "int option"
  sort_arg :: string
  order_arg :: string
  category :: "int list"
  quality_filter :: string
  page :: int
  rss :: bool
  admin :: bool
  logged_in_user :: "user_row option"
  per_page :: int
  max_search_results :: int

text \<open>
  \<^verbatim>\<open>models.TorrentFlags\<close> is declared outside \<^verbatim>\<open>search.py\<close>; its six masks are
  parameters.
\<close>

record torrent_flags =
  ANONYMOUS :: int
  HIDDEN :: int
  TRUSTED :: int
  REMAKE :: int
  COMPLETE :: int
  DELETED :: int

text \<open>
  What \<^verbatim>\<open>search.py\<close> takes from \<^verbatim>\<open>nyaa.models\<close> and \<^verbatim>\<open>app.config\<close>: the three
  lookups (each returns a row or \<^verbatim>\<open>None\<close>; the category rows are used for their
  truth value only, so their types are left open), the flag masks and the two
  configuration values. And what it takes from the interpreter's Unicode database:
  the decimal digits outside ASCII with their values (the characters that \<^verbatim>\<open>\d\<close>
  matches and \<^verbatim>\<open>int\<close> converts, besides \<open>0\<close>..\<open>9\<close>); the table grows with the Unicode
  version, so it is a parameter.
\<close>

record ('m, 's) env =
  MainCategory_by_id :: "int \<Rightarrow> 'm option"
  SubCategory_by_category_ids :: "int \<Rightarrow> int \<Rightarrow> 's option"
  User_by_id :: "int \<Rightarrow> user_row option"
  TorrentFlags :: torrent_flags
  ES_INDEX_NAME :: "string option"
  ENABLE_ELASTIC_SEARCH_HIGHLIGHT :: bool
  unicode_decimal :: "int \<Rightarrow> int option"

text \<open>
  The decimal value of a code point, for a decimal digit: \<open>0\<close>..\<open>9\<close> in ASCII, the
  database's digits elsewhere.
\<close>

definition decimal :: "('m, 's) env \<Rightarrow> int \<Rightarrow> int option" where
  "decimal e c = (if 48 \<le> c \<and> c \<le> 57 then Some (c - 48) else unicode_decimal e c)"

text \<open>\<^verbatim>\<open>int(s)\<close> on a string of decimal digits, as the code calls it on the two groups.\<close>

definition int_of_decimals :: "('m, 's) env \<Rightarrow> int list \<Rightarrow> int" where
  "int_of_decimals e s =
     foldl (\<lambda>acc c. 10 * acc + (case decimal e c of Some d \<Rightarrow> d | None \<Rightarrow> 0)) 0 s"

text \<open>
  \<^verbatim>\<open>re.match(r'^(\d+)_(\d+)$', category)\<close>: the two groups, or \<open>None\<close>. On a Python
  string \<^verbatim>\<open>\d\<close> matches every decimal digit of the Unicode database, and
  \<^verbatim>\<open>$\<close> also matches just before one final line feed.
\<close>

definition cat_match :: "('m, 's) env \<Rightarrow> int list \<Rightarrow> (int list \<times> int list) option" where
  "cat_match e c =
     (let is_d = (\<lambda>x. decimal e x \<noteq> None);
          g1 = takeWhile is_d c; r1 = dropWhile is_d c in
      case r1 of
        [] \<Rightarrow> None
      | x # r2 \<Rightarrow>
          if g1 = [] \<or> x \<noteq> 95 then None
          else
            (let g2 = takeWhile is_d r2; r3 = dropWhile is_d r2 in
             if g2 \<noteq> [] \<and> (r3 = [] \<or> r3 = [10]) then Some (g1, g2) else None))"

text \<open>Python's truth value of \<^verbatim>\<open>user\<close>, which is \<^verbatim>\<open>None\<close> or an integer id.\<close>

definition truthy :: "int option \<Rightarrow> bool" where
  "truthy u = (case u of None \<Rightarrow> False | Some n \<Rightarrow> n \<noteq> 0)"

text \<open>
  Lines 95-99 and 223-227:
  \<^verbatim>\<open>if user: user = models.User.by_id(user); if not user: flask.abort(404); user = user.id\<close>.
\<close>

definition user_block :: "('m, 's) env \<Rightarrow> int option \<Rightarrow> error + int option" where
  "user_block e u =
     (case u of
        None \<Rightarrow> Inr None
      | Some n \<Rightarrow>
          if n = 0 then Inr (Some n)
          else (case User_by_id e n of
                  None \<Rightarrow> Inl (Abort 404)
                | Some r \<Rightarrow> Inr (Some (user_id r))))"

text \<open>
  Lines 101-103 and 255-257:
  \<^verbatim>\<open>same_user = False; if logged_in_user: same_user = user == logged_in_user.id\<close>.
\<close>

definition same_user_block :: "int option \<Rightarrow> user_row option \<Rightarrow> bool" where
  "same_user_block u li = (case li of None \<Rightarrow> False | Some l \<Rightarrow> u = Some (user_id l))"

definition order_keys :: "(string \<times> string) list" where
  "order_keys = [(''desc'', ''desc''), (''asc'', ''asc'')]"

section \<open>Records and what a filter selects\<close>

text \<open>
  A torrent row as the two planners filter it: the uploader (nullable), the category ids
  and the flag bitset.
\<close>

record torrent =
  uploader_id :: "int option"
  main_category_id :: int
  sub_category_id :: int
  flags :: int


subsection \<open>The index backend\<close>

text \<open>
  The \<^verbatim>\<open>elasticsearch_dsl\<close> clauses the code builds: \<^verbatim>\<open>Q('term', field=value)\<close>, the
  \<^verbatim>\<open>|\<close> of two such clauses (a \<^verbatim>\<open>bool\<close> query whose \<^verbatim>\<open>should\<close> list holds both), and
  \<^verbatim>\<open>Q('bool', filter=[...])\<close>.
\<close>

datatype es_value = EsBool bool | EsInt int

datatype es_q =
    Term string es_value
  | Or es_q es_q
  | Bool_filter "es_q list"

text \<open>
  The compiled \<^verbatim>\<open>Search\<close> object: the index, the \<^verbatim>\<open>simple_query_string\<close> query (its
  \<^verbatim>\<open>query\<close> text; analyzer and default operator are constants of the code), the filters
  in the order \<^verbatim>\<open>s.filter\<close> added them, the sort field, the slice \<^verbatim>\<open>s[from:to]\<close> and
  whether highlighting of \<^verbatim>\<open>display_name\<close> was requested.
\<close>

record es_search =
  es_index :: "string option"
  es_query :: "int list option"
  es_filters :: "es_q list"
  es_sort :: string
  es_slice :: "int \<times> int"
  es_highlight :: bool

text \<open>The six flags of a record, read from its bitset with the masks.\<close>

definition is_deleted :: "torrent_flags \<Rightarrow> torrent \<Rightarrow> bool" where
  "is_deleted F t = (flags t AND DELETED F \<noteq> 0)"

definition is_hidden :: "torrent_flags \<Rightarrow> torrent \<Rightarrow> bool" where
  "is_hidden F t = (flags t AND HIDDEN F \<noteq> 0)"

definition is_anonymous :: "torrent_flags \<Rightarrow> torrent \<Rightarrow> bool" where
  "is_anonymous F t = (flags t AND ANONYMOUS F \<noteq> 0)"

definition is_remake :: "torrent_flags \<Rightarrow> torrent \<Rightarrow> bool" where
  "is_remake F t = (flags t AND REMAKE F \<noteq> 0)"

definition is_trusted :: "torrent_flags \<Rightarrow> torrent \<Rightarrow> bool" where
  "is_trusted F t = (flags t AND TRUSTED F \<noteq> 0)"

definition is_complete :: "torrent_flags \<Rightarrow> torrent \<Rightarrow> bool" where
  "is_complete F t = (flags t AND COMPLETE F \<noteq> 0)"

text \<open>
  Modelled from the spec: the index document of a record (index population is outside
  \<^verbatim>\<open>search.py\<close>). The spec's Record carries the flag bitset
  \<open>{deleted, hidden, anonymous, remake, trusted, complete}\<close>; the index planner filters
  on one boolean field per flag and on the three ids, so the document holds exactly
  these, each flag field true iff its mask meets the record's flags. A record without
  uploader has no \<^verbatim>\<open>uploader_id\<close> field.
\<close>

definition es_doc :: "torrent_flags \<Rightarrow> torrent \<Rightarrow> (string \<times> es_value) list" where
  "es_doc F t =
     [(''deleted'', EsBool (is_deleted F t)),
      (''hidden'', EsBool (is_hidden F t)),
      (''anonymous'', EsBool (is_anonymous F t)),
      (''remake'', EsBool (is_remake F t)),
      (''trusted'', EsBool (is_trusted F t)),
      (''complete'', EsBool (is_complete F t)),
      (''main_category_id'', EsInt (main_category_id t)),
      (''sub_category_id'', EsInt (sub_category_id t))]
     @ (case uploader_id t of None \<Rightarrow> [] | Some u \<Rightarrow> [(''uploader_id'', EsInt u)])"

text \<open>
  Whether a document passes a clause in filter context: a term clause needs the field
  to hold the value, a \<^verbatim>\<open>should\<close> pair needs one of the two, a \<^verbatim>\<open>bool\<close> filter
  needs all its clauses.
\<close>

fun es_holds :: "(string \<times> es_value) list \<Rightarrow> es_q \<Rightarrow> bool" where
  "es_holds d (Term f v) = (map_of d f = Some v)"
| "es_holds d (Or a b) = (es_holds d a \<or> es_holds d b)"
| "es_holds d (Bool_filter qs) = list_all (es_holds d) qs"

subsection \<open>The datastore backend\<close>

text \<open>The columns the planner sorts on, and the mapped classes they belong to.\<close>

datatype model_class = Torrent | Statistic | TorrentNameSearch

datatype column =
    Torrent_id
  | Torrent_filesize
  | Statistic_seed_count
  | Statistic_leech_count
  | Statistic_download_count

fun class_of :: "column \<Rightarrow> model_class" where
  "class_of Torrent_id = Torrent"
| "class_of Torrent_filesize = Torrent"
| "class_of Statistic_seed_count = Statistic"
| "class_of Statistic_leech_count = Statistic"
| "class_of Statistic_download_count = Statistic"

text \<open>
  The SQLAlchemy filter expressions the code builds:
  \<^verbatim>\<open>Torrent.flags.op('&')(mask).is_(b)\<close>, the three column equalities, \<^verbatim>\<open>|\<close>, \<^verbatim>\<open>&\<close>
  and \<^verbatim>\<open>FullTextSearch(item, TorrentNameSearch, NATURAL)\<close>.
\<close>

datatype sql_expr =
    Flags_and_is int bool
  | Uploader_id_eq int
  | Main_category_id_eq int
  | Sub_category_id_eq int
  | Sql_or sql_expr sql_expr
  | Sql_and sql_expr sql_expr
  | FullTextSearch "int list"

datatype ordering = Desc column | Asc column

datatype paging = Limit int | Paginate_faste int int int

text \<open>
  The compiled query: the base relation, the filters in the order \<^verbatim>\<open>query.filter\<close>
  added them (a row must pass all), the joins, \<^verbatim>\<open>order_by\<close>, and \<^verbatim>\<open>limit\<close> or
  \<^verbatim>\<open>paginate_faste(page, per_page, step)\<close>.
\<close>

record db_query =
  db_base :: model_class
  db_filters :: "sql_expr list"
  db_joins :: "model_class list"
  db_order_by :: ordering
  db_paging :: paging

text \<open>
  Whether a row passes a filter expression. \<^verbatim>\<open>(flags & mask) IS b\<close> compares the truth
  value of the masked flags with \<open>b\<close>; an equality on a NULL uploader selects nothing.
  Full-text matching is the database's: it is the parameter \<open>ft\<close>.
\<close>

fun sql_holds :: "(int list \<Rightarrow> torrent \<Rightarrow> bool) \<Rightarrow> torrent \<Rightarrow> sql_expr \<Rightarrow> bool" where
  "sql_holds ft t (Flags_and_is m b) = ((flags t AND m \<noteq> 0) = b)"
| "sql_holds ft t (Uploader_id_eq u) = (uploader_id t = Some u)"
| "sql_holds ft t (Main_category_id_eq m) = (main_category_id t = m)"
| "sql_holds ft t (Sub_category_id_eq s) = (sub_category_id t = s)"
| "sql_holds ft t (Sql_or a b) = (sql_holds ft t a \<or> sql_holds ft t b)"
| "sql_holds ft t (Sql_and a b) = (sql_holds ft t a \<and> sql_holds ft t b)"
| "sql_holds ft t (FullTextSearch item) = ft item t"

section \<open>\<^verbatim>\<open>search_elastic\<close>\<close>

definition es_sort_keys :: "(string \<times> string) list" where
  "es_sort_keys =
     [(''id'', ''id''),
      (''size'', ''filesize''),
      (''seeders'', ''seed_count''),
      (''leechers'', ''leech_count''),
      (''downloads'', ''download_count'')]"

definition quality_keys :: "string list" where
  "quality_keys = [''0'', ''1'', ''2'', ''3'']"

text \<open>
  Lines 33-55 (\<open>sort_lower\<close> and \<open>order_lower\<close> are the source's \<^verbatim>\<open>sort_\<close> and
  \<^verbatim>\<open>order_\<close>). The lookup \<^verbatim>\<open>es_sort_keys[sort]\<close> uses the caller's string, the check
  before it the lowered one. Under \<^verbatim>\<open>rss\<close> the code assigns \<^verbatim>\<open>sort\<close> and
  \<^verbatim>\<open>order\<close>; \<^verbatim>\<open>es_sort\<close> was computed before and \<^verbatim>\<open>sort\<close> is not read again.
\<close>

definition es_sort_block :: "string \<Rightarrow> string \<Rightarrow> bool \<Rightarrow> error + string" where
  "es_sort_block sort0 order0 is_rss =
     (let sort_lower = lower sort0 in
      if map_of es_sort_keys sort_lower = None then Inl (Abort 400)
      else
        (case map_of es_sort_keys sort0 of
           None \<Rightarrow> Inl (KeyError sort0)
         | Some es_sort0 \<Rightarrow>
             (let order_lower = lower order0 in
              if map_of order_keys order_lower = None then Inl (Abort 400)
              else
                (case map_of es_sort_keys ''id'' of
                   None \<Rightarrow> Inl (KeyError ''id'')
                 | Some id_key \<Rightarrow>
                     (let (sort1, order1) =
                            (if is_rss then (id_key, ''desc'') else (sort0, order0))
                      in Inr (if ''desc'' = order1 then ''-'' @ es_sort0 else es_sort0))))))"

text \<open>Lines 65-68: the membership test and \<^verbatim>\<open>int(quality_filter)\<close>.\<close>

definition es_quality_block :: "string \<Rightarrow> error + int" where
  "es_quality_block q =
     (if lower q \<notin> set quality_keys then Inl (Abort 400)
      else (case py_int q of None \<Rightarrow> Inl ValueError | Some n \<Rightarrow> Inr n))"

text \<open>
  Lines 71-91: the result is \<^verbatim>\<open>(main_cat_id, sub_cat_id, main_category, sub_category)\<close>.
\<close>

definition es_category_block ::
  "('m, 's) env \<Rightarrow> int list \<Rightarrow> error + (int \<times> int \<times> 'm option \<times> 's option)" where
  "es_category_block e c =
     (if c = [] then Inr (0, 0, None, None)
      else
        (case cat_match e c of
           None \<Rightarrow> Inl (Abort 400)
         | Some (g1, g2) \<Rightarrow>
             (let main_cat_id = int_of_decimals e g1; sub_cat_id = int_of_decimals e g2 in
              if main_cat_id > 0 then
                (if sub_cat_id > 0 then
                   (case SubCategory_by_category_ids e main_cat_id sub_cat_id of
                      None \<Rightarrow> Inl (Abort 400)
                    | Some sc \<Rightarrow> Inr (main_cat_id, sub_cat_id, None, Some sc))
                 else
                   (case MainCategory_by_id e main_cat_id of
                      None \<Rightarrow> Inl (Abort 400)
                    | Some mc \<Rightarrow> Inr (main_cat_id, sub_cat_id, Some mc, None)))
              else Inr (main_cat_id, sub_cat_id, None, None))))"

text \<open>Lines 114-145: the filters of the user view and of the general view.\<close>

definition es_visibility ::
  "int option \<Rightarrow> user_row option \<Rightarrow> bool \<Rightarrow> bool \<Rightarrow> bool \<Rightarrow> es_q list" where
  "es_visibility u li is_admin is_rss same_user =
     (if truthy u then
        [Term ''uploader_id'' (EsInt (the u))]
        @ (if \<not> is_admin then
             [Term ''deleted'' (EsBool False)]
             @ (if \<not> same_user \<or> is_rss then
                  [Term ''hidden'' (EsBool False), Term ''anonymous'' (EsBool False)]
                else [])
           else [])
      else
        (if \<not> is_admin then
           [Term ''deleted'' (EsBool False)]
           @ (case li of
                Some l \<Rightarrow>
                  if \<not> is_rss then
                    [Bool_filter
                       [Or (Term ''hidden'' (EsBool False))
                           (Term ''uploader_id'' (EsInt (user_id l)))]]
                  else [Term ''hidden'' (EsBool False)]
              | None \<Rightarrow> [Term ''hidden'' (EsBool False)])
         else []))"

text \<open>Lines 147-151.\<close>

definition es_category_filters :: "int \<Rightarrow> int \<Rightarrow> 'm option \<Rightarrow> 's option \<Rightarrow> es_q list" where
  "es_category_filters main_cat_id sub_cat_id main_category sub_category =
     (if main_category \<noteq> None then [Term ''main_category_id'' (EsInt main_cat_id)]
      else if sub_category \<noteq> None then
        [Term ''main_category_id'' (EsInt main_cat_id),
         Term ''sub_category_id'' (EsInt sub_cat_id)]
      else [])"

text \<open>Lines 153-160.\<close>

definition es_quality_filters :: "int \<Rightarrow> es_q list" where
  "es_quality_filters q =
     (if q = 0 then []
      else if q = 1 then [Term ''remake'' (EsBool False)]
      else if q = 2 then [Term ''trusted'' (EsBool True)]
      else if q = 3 then [Term ''complete'' (EsBool True)]
      else [])"

text \<open>
  Lines 166-172. Under RSS the slice is \<^verbatim>\<open>s[0:per_page]\<close>. Otherwise
  \<^verbatim>\<open>float(per_page)\<close> is converted first, then \<^verbatim>\<open>max_search_results\<close> for the
  division, which raises \<^verbatim>\<open>ZeroDivisionError\<close> on a zero divisor and rounds the
  quotient to a double; \<^verbatim>\<open>math.ceil\<close> is exact, and so is the integer arithmetic after
  it.
\<close>

definition es_slice_block :: "bool \<Rightarrow> int \<Rightarrow> int \<Rightarrow> int \<Rightarrow> error + (int \<times> int)" where
  "es_slice_block is_rss page0 per_page0 max_results =
     (if is_rss then search_slice 0 per_page0
      else
        (case py_float per_page0 of
           Inl err \<Rightarrow> Inl err
         | Inr float_per_page \<Rightarrow>
             (case py_float max_results of
                Inl err \<Rightarrow> Inl err
              | Inr float_max \<Rightarrow>
                  if float_per_page = 0 then Inl ZeroDivisionError
                  else
                    (let max_page = min page0 \<lceil>round_double (float_max / float_per_page)\<rceil>;
                         from_idx = (max_page - 1) * per_page0;
                         to_idx = min max_results (max_page * per_page0)
                     in search_slice from_idx to_idx))))"

text \<open>
  The whole function, in the order of the source. The value returned stands for
  \<^verbatim>\<open>s.execute()\<close>: the search as compiled, which the client then runs.
\<close>

definition search_elastic :: "('m, 's) env \<Rightarrow> search_args \<Rightarrow> error + es_search" where
  "search_elastic e a =
     (case es_sort_block (sort_arg a) (order_arg a) (rss a) of
        Inl err \<Rightarrow> Inl err
      | Inr es_sort1 \<Rightarrow>
     (case es_quality_block (quality_filter a) of
        Inl err \<Rightarrow> Inl err
      | Inr quality \<Rightarrow>
     (case es_category_block e (category a) of
        Inl err \<Rightarrow> Inl err
      | Inr (main_cat_id, sub_cat_id, main_category, sub_category) \<Rightarrow>
     (case user_block e (user a) of
        Inl err \<Rightarrow> Inl err
      | Inr u \<Rightarrow>
     (let same_user = same_user_block u (logged_in_user a);
          fs = es_visibility u (logged_in_user a) (admin a) (rss a) same_user
               @ es_category_filters main_cat_id sub_cat_id main_category sub_category
               @ es_quality_filters quality
      in
     (case es_slice_block (rss a) (page a) (per_page a) (max_search_results a) of
        Inl err \<Rightarrow> Inl err
      | Inr sl \<Rightarrow>
          Inr \<lparr> es_index = ES_INDEX_NAME e,
                es_query = (if term_arg a \<noteq> [] then Some (term_arg a) else None),
                es_filters = fs,
                es_sort = es_sort1,
                es_slice = sl,
                es_highlight = ENABLE_ELASTIC_SEARCH_HIGHLIGHT e \<rparr>))))))"

section \<open>\<^verbatim>\<open>search_db\<close>\<close>

definition sort_keys :: "(string \<times> column) list" where
  "sort_keys =
     [(''id'', Torrent_id),
      (''size'', Torrent_filesize),
      (''seeders'', Statistic_seed_count),
      (''leechers'', Statistic_leech_count),
      (''downloads'', Statistic_download_count)]"

text \<open>
  \<^verbatim>\<open>filter_keys\<close> (lines 211-216): \<open>None\<close> is Python's \<^verbatim>\<open>None\<close>, a pair is
  \<^verbatim>\<open>(flag, value)\<close>.
\<close>

definition filter_keys :: "torrent_flags \<Rightarrow> (string \<times> (int \<times> bool) option) list" where
  "filter_keys F =
     [(''0'', None),
      (''1'', Some (REMAKE F, False)),
      (''2'', Some (TRUSTED F, True)),
      (''3'', Some (COMPLETE F, True))]"

text \<open>Lines 197-209: the sort column (looked up with the caller's string) and the order check.\<close>

definition db_sort_block :: "string \<Rightarrow> string \<Rightarrow> error + column" where
  "db_sort_block sort0 order0 =
     (let sort_lower = lower sort0 in
      if map_of sort_keys sort_lower = None then Inl (Abort 400)
      else
        (case map_of sort_keys sort0 of
           None \<Rightarrow> Inl (KeyError sort0)
         | Some col \<Rightarrow>
             (let order_lower = lower order0 in
              if map_of order_keys order_lower = None then Inl (Abort 400)
              else Inr col)))"

text \<open>
  Lines 218-221: \<^verbatim>\<open>filter_keys.get(quality_filter.lower(), sentinel)\<close>; the outer
  \<open>None\<close> is the sentinel.
\<close>

definition db_quality_block :: "torrent_flags \<Rightarrow> string \<Rightarrow> error + (int \<times> bool) option" where
  "db_quality_block F q =
     (case map_of (filter_keys F) (lower q) of
        None \<Rightarrow> Inl (Abort 400)
      | Some filter_tuple \<Rightarrow> Inr filter_tuple)"

text \<open>
  Lines 229-248. After the two lookups the code tests \<^verbatim>\<open>if not category\<close>, the
  request's string, inside the branch \<^verbatim>\<open>if category\<close>.
\<close>

definition db_category_block ::
  "('m, 's) env \<Rightarrow> int list \<Rightarrow> error + (int \<times> int \<times> 'm option \<times> 's option)" where
  "db_category_block e c =
     (if c = [] then Inr (0, 0, None, None)
      else
        (case cat_match e c of
           None \<Rightarrow> Inl (Abort 400)
         | Some (g1, g2) \<Rightarrow>
             (let main_cat_id = int_of_decimals e g1; sub_cat_id = int_of_decimals e g2 in
              if main_cat_id > 0 then
                (let (main_category, sub_category) =
                       (if sub_cat_id > 0 then
                          (None, SubCategory_by_category_ids e main_cat_id sub_cat_id)
                        else (MainCategory_by_id e main_cat_id, None))
                 in if c = [] then Inl (Abort 400)
                    else Inr (main_cat_id, sub_cat_id, main_category, sub_category))
              else Inr (main_cat_id, sub_cat_id, None, None))))"

text \<open>Lines 264-289: the filters of the user view and of the general view.\<close>

definition db_visibility ::
  "torrent_flags \<Rightarrow> int option \<Rightarrow> user_row option \<Rightarrow> bool \<Rightarrow> bool \<Rightarrow> bool \<Rightarrow> sql_expr list" where
  "db_visibility F u li is_admin is_rss same_user =
     (if truthy u then
        [Uploader_id_eq (the u)]
        @ (if \<not> is_admin then
             [Flags_and_is (DELETED F) False]
             @ (if \<not> same_user \<or> is_rss then
                  [Flags_and_is (HIDDEN F OR ANONYMOUS F) False]
                else [])
           else [])
      else
        (if \<not> is_admin then
           [Flags_and_is (DELETED F) False]
           @ (case li of
                Some l \<Rightarrow>
                  if \<not> is_rss then
                    [Sql_or (Flags_and_is (HIDDEN F) False) (Uploader_id_eq (user_id l))]
                  else [Flags_and_is (HIDDEN F) False]
              | None \<Rightarrow> [Flags_and_is (HIDDEN F) False])
         else []))"

text \<open>Lines 291-295.\<close>

definition db_category_filters :: "int \<Rightarrow> int \<Rightarrow> 'm option \<Rightarrow> 's option \<Rightarrow> sql_expr list" where
  "db_category_filters main_cat_id sub_cat_id main_category sub_category =
     (if main_category \<noteq> None then [Main_category_id_eq main_cat_id]
      else if sub_category \<noteq> None then
        [Sql_and (Main_category_id_eq main_cat_id) (Sub_category_id_eq sub_cat_id)]
      else [])"

text \<open>Lines 297-298.\<close>

definition db_quality_filters :: "(int \<times> bool) option \<Rightarrow> sql_expr list" where
  "db_quality_filters filter_tuple =
     (case filter_tuple of None \<Rightarrow> [] | Some (flag, b) \<Rightarrow> [Flags_and_is flag b])"

text \<open>
  Lines 300-304: one \<^verbatim>\<open>FullTextSearch\<close> filter for each item of
  \<^verbatim>\<open>shlex.split(term, posix=False)\<close> with \<^verbatim>\<open>len(item) >= 2\<close>; the length of an
  item is its number of code points.
\<close>

definition db_term_filters :: "int list \<Rightarrow> error + sql_expr list" where
  "db_term_filters t =
     (if t \<noteq> [] then
        (case shlex_split t of
           Inl err \<Rightarrow> Inl err
         | Inr items \<Rightarrow> Inr (map FullTextSearch (filter (\<lambda>item. length item \<ge> 2) items)))
      else Inr [])"

text \<open>
  Line 310, \<^verbatim>\<open>getattr(sort, order)()\<close>: a column has the methods \<^verbatim>\<open>desc\<close> and
  \<^verbatim>\<open>asc\<close>; of the strings that pass the order check no other is an attribute of it.
\<close>

definition db_order_block :: "column \<Rightarrow> string \<Rightarrow> error + ordering" where
  "db_order_block col order0 =
     (if order0 = ''desc'' then Inr (Desc col)
      else if order0 = ''asc'' then Inr (Asc col)
      else Inl (AttributeError order0))"

text \<open>Whether a filter of the compiled query is a full-text match predicate.\<close>

fun is_fulltext :: "sql_expr \<Rightarrow> bool" where
  "is_fulltext (FullTextSearch item) = True"
| "is_fulltext f = False"

text \<open>The whole function, in the order of the source; the value is the query returned.\<close>

definition search_db :: "('m, 's) env \<Rightarrow> search_args \<Rightarrow> error + db_query" where
  "search_db e a =
     (case db_sort_block (sort_arg a) (order_arg a) of
        Inl err \<Rightarrow> Inl err
      | Inr sort0 \<Rightarrow>
     (case db_quality_block (TorrentFlags e) (quality_filter a) of
        Inl err \<Rightarrow> Inl err
      | Inr filter_tuple \<Rightarrow>
     (case user_block e (user a) of
        Inl err \<Rightarrow> Inl err
      | Inr u \<Rightarrow>
     (case db_category_block e (category a) of
        Inl err \<Rightarrow> Inl err
      | Inr (main_cat_id, sub_cat_id, main_category, sub_category) \<Rightarrow>
     (case map_of sort_keys ''id'' of
        None \<Rightarrow> Inl (KeyError ''id'')
      | Some id_col \<Rightarrow>
     (let (sort1, order1) = (if rss a then (id_col, ''desc'') else (sort0, order_arg a));
          same_user = same_user_block u (logged_in_user a);
          base = (if term_arg a \<noteq> [] then TorrentNameSearch else Torrent);
          fs = db_visibility (TorrentFlags e) u (logged_in_user a) (admin a) (rss a) same_user
               @ db_category_filters main_cat_id sub_cat_id main_category sub_category
               @ db_quality_filters filter_tuple
      in
     (case db_term_filters (term_arg a) of
        Inl err \<Rightarrow> Inl err
      | Inr ts \<Rightarrow>
     (case db_order_block sort1 order1 of
        Inl err \<Rightarrow> Inl err
      | Inr ob \<Rightarrow>
          Inr \<lparr> db_base = base,
                db_filters = fs @ ts,
                db_joins = (if class_of sort1 \<noteq> Torrent then [class_of sort1] else []),
                db_order_by = ob,
                db_paging = (if rss a then Limit (per_page a)
                             else Paginate_faste (page a) (per_page a) 5) \<rparr>))))))))"

section \<open>Example requests\<close>

text \<open>
  A small world for the examples: the flag masks as six distinct bits, one main category
  \<open>1\<close> with one sub-category \<open>(1, 2)\<close>, one user with id \<open>7\<close>, and the decimal
  digits of Unicode 14.0. Outside ASCII these come in runs of ten, from the digit zero
  up; \<open>decimal_zeros\<close> lists the zeros.
\<close>

definition decimal_zeros :: "int list" where
  "decimal_zeros =
     [1632, 1776, 1984, 2406, 2534, 2662, 2790, 2918, 3046, 3174, 3302, 3430, 3558, 3664,
      3792, 3872, 4160, 4240, 6112, 6160, 6470, 6608, 6784, 6800, 6992, 7088, 7232, 7248,
      42528, 43216, 43264, 43472, 43504, 43600, 44016, 65296, 66720, 68912, 69734, 69872,
      69942, 70096, 70384, 70736, 70864, 71248, 71360, 71472, 71904, 72016, 72784, 73040,
      73120, 92768, 92864, 93008, 120782, 120792, 120802, 120812, 120822, 123200, 123632,
      125264, 130032]"

definition example_decimal :: "int \<Rightarrow> int option" where
  "example_decimal c =
     (case find (\<lambda>z. z \<le> c \<and> c \<le> z + 9) decimal_zeros of
        Some z \<Rightarrow> Some (c - z)
      | None \<Rightarrow> None)"

definition example_flags :: torrent_flags where
  "example_flags =
     \<lparr> ANONYMOUS = 1, HIDDEN = 2, TRUSTED = 4, REMAKE = 8, COMPLETE = 16, DELETED = 32 \<rparr>"

definition example_env :: "(unit, unit) env" where
  "example_env =
     \<lparr> MainCategory_by_id = (\<lambda>m. if m = 1 then Some () else None),
       SubCategory_by_category_ids = (\<lambda>m s. if m = 1 \<and> s = 2 then Some () else None),
       User_by_id = (\<lambda>n. if n = 7 then Some \<lparr> user_id = 7 \<rparr> else None),
       TorrentFlags = example_flags,
       ES_INDEX_NAME = Some ''nyaa'',
       ENABLE_ELASTIC_SEARCH_HIGHLIGHT = False,
       unicode_decimal = example_decimal \<rparr>"

text \<open>The default values of the keyword arguments, as the two signatures give them.\<close>

definition default_args :: search_args where
  "default_args =
     \<lparr> term_arg = [], user = None, sort_arg = ''id'', order_arg = ''desc'',
       category = ustr ''0_0'', quality_filter = ''0'', page = 1, rss = False, admin = False,
       logged_in_user = None, per_page = 75, max_search_results = 1000 \<rparr>"

text \<open>The user with id \<open>7\<close>, and a hidden torrent that this user uploaded.\<close>

definition example_user :: user_row where
  "example_user = \<lparr> user_id = 7 \<rparr>"

definition example_torrent :: torrent where
  "example_torrent =
     \<lparr> uploader_id = Some 7, main_category_id = 1, sub_category_id = 2, flags = 2 \<rparr>"

text \<open>User \<open>7\<close>, logged in, looks at the own profile; and at the general view.\<close>

definition owner_args :: search_args where
  "owner_args = default_args\<lparr>user := Some 7, logged_in_user := Some example_user\<rparr>"

definition member_args :: search_args where
  "member_args = default_args\<lparr>logged_in_user := Some example_user\<rparr>"

text \<open>
  Search terms with quotes: \<^verbatim>\<open>"foo bar" x 'y z'\<close>, and \<^verbatim>\<open>"foo\<close>, whose quote is not
  closed. And a term of one character outside ASCII, U+65E5.
\<close>

definition quoted_term :: "int list" where
  "quoted_term = [34] @ ustr ''foo bar'' @ [34] @ ustr '' x '' @ [39] @ ustr ''y z'' @ [39]"

definition unclosed_term :: "int list" where
  "unclosed_term = [34] @ ustr ''foo''"

definition one_character_term :: "int list" where
  "one_character_term = [26085]"

text \<open>A request whose operands are too large for exact floating-point division.\<close>

definition large_args :: search_args where
  "large_args =
     default_args\<lparr>page := 10 ^ 17, per_page := 1, max_search_results := 2 ^ 53 + 1\<rparr>"

section \<open>Facts about the helpers\<close>

lemma lower_examples:
  "lower ''id'' = ''id''" "lower ''ID'' = ''id''" "lower ''Seeders'' = ''seeders''"
  "lower ''size'' = ''size''" "lower ''desc'' = ''desc''" "lower ''asc'' = ''asc''"
  "lower ''DESC'' = ''desc''" "lower ''0'' = ''0''" "lower ''1'' = ''1''"
  "lower ''2'' = ''2''" "lower ''3'' = ''3''" "lower ''9'' = ''9''"
  by code_simp+

lemma lower_char_digit: "is_digit (lower_char c) \<Longrightarrow> lower_char c = c"
  by (auto simp: lower_char_def is_digit_def Let_def split: if_splits)

lemma lower_digits: "list_all is_digit (lower s) \<Longrightarrow> lower s = s"
  by (induction s) (auto simp: lower_def dest: lower_char_digit)

lemma lower_quality: "lower q \<in> set quality_keys \<Longrightarrow> lower q = q"
  by (rule lower_digits) (auto simp: quality_keys_def is_digit_def)

text \<open>What a successful run of each function went through, block by block.\<close>

lemma search_elastic_InrD:
  assumes "search_elastic e a = Inr s"
  obtains srt qn m sb mc sc u sl where
    "es_sort_block (sort_arg a) (order_arg a) (rss a) = Inr srt"
    "es_quality_block (quality_filter a) = Inr qn"
    "es_category_block e (category a) = Inr (m, sb, mc, sc)"
    "user_block e (user a) = Inr u"
    "es_slice_block (rss a) (page a) (per_page a) (max_search_results a) = Inr sl"
    "s = \<lparr> es_index = ES_INDEX_NAME e,
           es_query = (if term_arg a \<noteq> [] then Some (term_arg a) else None),
           es_filters = es_visibility u (logged_in_user a) (admin a) (rss a)
                          (same_user_block u (logged_in_user a))
                        @ es_category_filters m sb mc sc @ es_quality_filters qn,
           es_sort = srt, es_slice = sl,
           es_highlight = ENABLE_ELASTIC_SEARCH_HIGHLIGHT e \<rparr>"
  using assms unfolding search_elastic_def
  by (auto simp: Let_def split: sum.splits prod.splits)

lemma search_db_InrD:
  assumes "search_db e a = Inr q"
  obtains col ft u m sb mc sc ts ob where
    "db_sort_block (sort_arg a) (order_arg a) = Inr col"
    "db_quality_block (TorrentFlags e) (quality_filter a) = Inr ft"
    "user_block e (user a) = Inr u"
    "db_category_block e (category a) = Inr (m, sb, mc, sc)"
    "db_term_filters (term_arg a) = Inr ts"
    "db_order_block (if rss a then Torrent_id else col)
       (if rss a then ''desc'' else order_arg a) = Inr ob"
    "q = \<lparr> db_base = (if term_arg a \<noteq> [] then TorrentNameSearch else Torrent),
           db_filters = db_visibility (TorrentFlags e) u (logged_in_user a) (admin a) (rss a)
                          (same_user_block u (logged_in_user a))
                        @ db_category_filters m sb mc sc @ db_quality_filters ft @ ts,
           db_joins = (if class_of (if rss a then Torrent_id else col) \<noteq> Torrent
                       then [class_of (if rss a then Torrent_id else col)] else []),
           db_order_by = ob,
           db_paging = (if rss a then Limit (per_page a)
                        else Paginate_faste (page a) (per_page a) 5) \<rparr>"
  using assms unfolding search_db_def
  by (auto simp: Let_def sort_keys_def split: sum.splits prod.splits if_splits)

text \<open>The fields of an index document, and the flag filters of the datastore.\<close>

lemma es_doc_fields:
  "map_of (es_doc F t) ''deleted'' = Some (EsBool (is_deleted F t))"
  "map_of (es_doc F t) ''hidden'' = Some (EsBool (is_hidden F t))"
  "map_of (es_doc F t) ''anonymous'' = Some (EsBool (is_anonymous F t))"
  "map_of (es_doc F t) ''remake'' = Some (EsBool (is_remake F t))"
  "map_of (es_doc F t) ''trusted'' = Some (EsBool (is_trusted F t))"
  "map_of (es_doc F t) ''complete'' = Some (EsBool (is_complete F t))"
  "map_of (es_doc F t) ''main_category_id'' = Some (EsInt (main_category_id t))"
  "map_of (es_doc F t) ''sub_category_id'' = Some (EsInt (sub_category_id t))"
  "map_of (es_doc F t) ''uploader_id'' = map_option EsInt (uploader_id t)"
  by (simp_all add: es_doc_def split: option.split)

lemma mask_or_zero: "((x::int) AND (h OR a) = 0) = (x AND h = 0 \<and> x AND a = 0)"
  by (simp add: bit.conj_disj_distrib or_eq_0_iff)

lemma sql_flag_filters:
  "sql_holds ft t (Flags_and_is (DELETED F) b) = (is_deleted F t = b)"
  "sql_holds ft t (Flags_and_is (HIDDEN F) b) = (is_hidden F t = b)"
  "sql_holds ft t (Flags_and_is (REMAKE F) b) = (is_remake F t = b)"
  "sql_holds ft t (Flags_and_is (TRUSTED F) b) = (is_trusted F t = b)"
  "sql_holds ft t (Flags_and_is (COMPLETE F) b) = (is_complete F t = b)"
  "sql_holds ft t (Flags_and_is (HIDDEN F OR ANONYMOUS F) False)
   = (\<not> is_hidden F t \<and> \<not> is_anonymous F t)"
  by (simp_all add: is_deleted_def is_hidden_def is_anonymous_def is_remake_def
        is_trusted_def is_complete_def mask_or_zero)

text \<open>The viewed user after lines 95-99, in the two views.\<close>

lemma user_block_profile:
  assumes "user a = Some n" "n \<noteq> 0" "User_by_id e n = Some r"
  shows "user_block e (user a) = Inr (Some (user_id r))"
  using assms by (simp add: user_block_def)

lemma user_block_general:
  assumes "\<not> truthy (user a)"
  shows "user_block e (user a) = Inr (user a)"
  using assms by (auto simp: user_block_def truthy_def split: option.splits)

text \<open>The two functions on the example requests.\<close>

lemma search_elastic_owner_args:
  "search_elastic example_env owner_args =
     Inr \<lparr> es_index = Some ''nyaa'', es_query = None,
           es_filters = [Term ''uploader_id'' (EsInt 7), Term ''deleted'' (EsBool False)],
           es_sort = ''-id'', es_slice = (0, 75), es_highlight = False \<rparr>"
  by code_simp

lemma search_db_owner_args:
  "search_db example_env owner_args =
     Inr \<lparr> db_base = Torrent,
           db_filters = [Uploader_id_eq 7, Flags_and_is 32 False],
           db_joins = [], db_order_by = Desc Torrent_id, db_paging = Paginate_faste 1 75 5 \<rparr>"
  by code_simp

lemma search_elastic_member_args:
  "search_elastic example_env member_args =
     Inr \<lparr> es_index = Some ''nyaa'', es_query = None,
           es_filters =
             [Term ''deleted'' (EsBool False),
              Bool_filter [Or (Term ''hidden'' (EsBool False)) (Term ''uploader_id'' (EsInt 7))]],
           es_sort = ''-id'', es_slice = (0, 75), es_highlight = False \<rparr>"
  by code_simp

lemma search_db_member_args:
  "search_db example_env member_args =
     Inr \<lparr> db_base = Torrent,
           db_filters =
             [Flags_and_is 32 False, Sql_or (Flags_and_is 2 False) (Uploader_id_eq 7)],
           db_joins = [], db_order_by = Desc Torrent_id, db_paging = Paginate_faste 1 75 5 \<rparr>"
  by code_simp

lemma search_elastic_page_50:
  "search_elastic example_env (default_args\<lparr>page := 50\<rparr>) =
     Inr \<lparr> es_index = Some ''nyaa'', es_query = None,
           es_filters = [Term ''deleted'' (EsBool False), Term ''hidden'' (EsBool False)],
           es_sort = ''-id'', es_slice = (975, 1000), es_highlight = False \<rparr>"
  by code_simp

lemma search_elastic_page_14:
  "search_elastic example_env (default_args\<lparr>page := 14\<rparr>) =
     Inr \<lparr> es_index = Some ''nyaa'', es_query = None,
           es_filters = [Term ''deleted'' (EsBool False), Term ''hidden'' (EsBool False)],
           es_sort = ''-id'', es_slice = (975, 1000), es_highlight = False \<rparr>"
  by code_simp

lemma search_elastic_rss_default:
  "search_elastic example_env (default_args\<lparr>rss := True, page := 3\<rparr>) =
     Inr \<lparr> es_index = Some ''nyaa'', es_query = None,
           es_filters = [Term ''deleted'' (EsBool False), Term ''hidden'' (EsBool False)],
           es_sort = ''-id'', es_slice = (0, 75), es_highlight = False \<rparr>"
  by code_simp

lemma search_db_foo_bar:
  "search_db example_env (default_args\<lparr>term_arg := ustr ''foo bar''\<rparr>) =
     Inr \<lparr> db_base = TorrentNameSearch,
           db_filters = [Flags_and_is 32 False, Flags_and_is 2 False,
                         FullTextSearch (ustr ''foo''), FullTextSearch (ustr ''bar'')],
           db_joins = [], db_order_by = Desc Torrent_id, db_paging = Paginate_faste 1 75 5 \<rparr>"
  by code_simp

lemma search_db_a_b:
  "search_db example_env (default_args\<lparr>term_arg := ustr ''a b''\<rparr>) =
     Inr \<lparr> db_base = TorrentNameSearch,
           db_filters = [Flags_and_is 32 False, Flags_and_is 2 False],
           db_joins = [], db_order_by = Desc Torrent_id, db_paging = Paginate_faste 1 75 5 \<rparr>"
  by code_simp

text \<open>
  A term with an unclosed quote: \<^verbatim>\<open>shlex.split\<close> raises \<^verbatim>\<open>ValueError\<close>, which
  \<^verbatim>\<open>search_db\<close> does not catch.
\<close>

lemma search_db_unclosed_quote:
  "search_db example_env (default_args\<lparr>term_arg := unclosed_term\<rparr>) = Inl ValueError"
  by code_simp

text \<open>Only the term adds full-text predicates to the datastore query.\<close>

lemma no_fulltext_before_term:
  "filter is_fulltext (db_visibility F u li ad r su) = []"
  "filter is_fulltext (db_category_filters m sb mc sc) = []"
  "filter is_fulltext (db_quality_filters ft) = []"
  by (auto simp: db_visibility_def db_category_filters_def db_quality_filters_def
        split: option.splits)

lemma fulltext_map: "filter is_fulltext (map FullTextSearch xs) = map FullTextSearch xs"
  by (induction xs) simp_all

lemma not_fulltext_map: "filter (\<lambda>f. \<not> is_fulltext f) (map FullTextSearch xs) = []"
  by (induction xs) simp_all

lemma keep_not_fulltext: "filter is_fulltext xs = [] \<Longrightarrow> filter (\<lambda>f. \<not> is_fulltext f) xs = xs"
  by (induction xs) (auto split: if_splits)

lemma shlex_examples:
  "shlex_split (ustr ''foo bar'') = Inr [ustr ''foo'', ustr ''bar'']"
  "shlex_split (ustr ''a b'') = Inr [ustr ''a'', ustr ''b'']"
  "shlex_split quoted_term
     = Inr [[34] @ ustr ''foo bar'' @ [34], ustr ''x'', [39] @ ustr ''y z'' @ [39]]"
  "shlex_split unclosed_term = Inl ValueError"
  "shlex_split one_character_term = Inr [one_character_term]"
  by code_simp+

text \<open>The quality code and the sort key, step by step.\<close>

lemma quality_keys_set: "set quality_keys = {''0'', ''1'', ''2'', ''3''}"
  by (auto simp: quality_keys_def)

lemma py_int_examples:
  "py_int ''0'' = Some 0" "py_int ''1'' = Some 1" "py_int ''2'' = Some 2" "py_int ''3'' = Some 3"
  by code_simp+

lemma es_quality_block_Inr:
  assumes "es_quality_block q = Inr n"
  shows "(q = ''0'' \<and> n = 0) \<or> (q = ''1'' \<and> n = 1) \<or> (q = ''2'' \<and> n = 2) \<or> (q = ''3'' \<and> n = 3)"
proof -
  from assms have low: "lower q \<in> set quality_keys" and n: "py_int q = Some n"
    by (auto simp: es_quality_block_def split: if_splits option.splits)
  from low have "lower q = q" by (rule lower_quality)
  with low have "q \<in> {''0'', ''1'', ''2'', ''3''}"
    by (simp add: quality_keys_set)
  with n show ?thesis
    by (auto simp: py_int_examples)
qed

lemma db_quality_block_Inr:
  assumes "db_quality_block F q = Inr ft"
  shows "(q = ''0'' \<and> ft = None) \<or> (q = ''1'' \<and> ft = Some (REMAKE F, False))
       \<or> (q = ''2'' \<and> ft = Some (TRUSTED F, True)) \<or> (q = ''3'' \<and> ft = Some (COMPLETE F, True))"
proof -
  from assms have m: "map_of (filter_keys F) (lower q) = Some ft"
    by (auto simp: db_quality_block_def split: option.splits)
  then have low: "lower q \<in> set quality_keys"
    by (auto simp: filter_keys_def quality_keys_def split: if_splits)
  then have "lower q = q" by (rule lower_quality)
  with m show ?thesis
    by (auto simp: filter_keys_def split: if_splits)
qed

lemma quality_rejected:
  assumes "q \<notin> {''0'', ''1'', ''2'', ''3''}"
  shows "es_quality_block q = Inl (Abort 400)" and "db_quality_block F q = Inl (Abort 400)"
proof -
  have nl: "lower q \<notin> set quality_keys"
  proof
    assume l: "lower q \<in> set quality_keys"
    then have "lower q = q" by (rule lower_quality)
    with l assms show False by (simp add: quality_keys_set)
  qed
  then show "es_quality_block q = Inl (Abort 400)"
    by (simp add: es_quality_block_def)
  from nl have "map_of (filter_keys F) (lower q) = None"
    by (auto simp: filter_keys_def quality_keys_def)
  then show "db_quality_block F q = Inl (Abort 400)"
    by (simp add: db_quality_block_def)
qed

lemma sort_keys_dom:
  "(map_of es_sort_keys k \<noteq> None) = (k \<in> {''id'', ''size'', ''seeders'', ''leechers'', ''downloads''})"
  "(map_of sort_keys k \<noteq> None) = (k \<in> {''id'', ''size'', ''seeders'', ''leechers'', ''downloads''})"
  by (auto simp: es_sort_keys_def sort_keys_def)

lemma sort_keys_id:
  "map_of es_sort_keys ''id'' = Some ''id''" "map_of sort_keys ''id'' = Some Torrent_id"
  by (simp_all add: es_sort_keys_def sort_keys_def)

lemma es_sort_block_no_KeyError:
  assumes "map_of es_sort_keys (lower srt) \<noteq> None \<longrightarrow> map_of es_sort_keys srt \<noteq> None"
  shows "es_sort_block srt ord r = Inl (Abort 400) \<or> (\<exists>k. es_sort_block srt ord r = Inr k)"
proof (cases "map_of es_sort_keys (lower srt) = None")
  case True
  then show ?thesis by (simp add: es_sort_block_def)
next
  case False
  with assms obtain k where "map_of es_sort_keys srt = Some k" by blast
  with False show ?thesis
    by (simp add: es_sort_block_def Let_def sort_keys_id)
qed

lemma db_sort_block_no_KeyError:
  assumes "map_of sort_keys (lower srt) \<noteq> None \<longrightarrow> map_of sort_keys srt \<noteq> None"
  shows "db_sort_block srt ord = Inl (Abort 400) \<or> (\<exists>c. db_sort_block srt ord = Inr c)"
proof (cases "map_of sort_keys (lower srt) = None")
  case True
  then show ?thesis by (simp add: db_sort_block_def)
next
  case False
  with assms obtain c where "map_of sort_keys srt = Some c" by blast
  with False show ?thesis
    by (simp add: db_sort_block_def Let_def)
qed

lemma es_quality_part:
  assumes "search_elastic e a = Inr s"
  shows "quality_filter a \<in> {''0'', ''1'', ''2'', ''3''}
    \<and> (\<exists>u m sb mc sc.
          user_block e (user a) = Inr u
        \<and> es_category_block e (category a) = Inr (m, sb, mc, sc)
        \<and> es_filters s =
            es_visibility u (logged_in_user a) (admin a) (rss a)
              (same_user_block u (logged_in_user a))
            @ es_category_filters m sb mc sc
            @ (if quality_filter a = ''0'' then []
               else if quality_filter a = ''1'' then [Term ''remake'' (EsBool False)]
               else if quality_filter a = ''2'' then [Term ''trusted'' (EsBool True)]
               else [Term ''complete'' (EsBool True)]))"
  using assms
proof (rule search_elastic_InrD)
  fix srt qn m sb mc sc u sl
  assume qn: "es_quality_block (quality_filter a) = Inr qn"
    and cat: "es_category_block e (category a) = Inr (m, sb, mc, sc)"
    and u: "user_block e (user a) = Inr u"
    and s: "s = \<lparr> es_index = ES_INDEX_NAME e,
           es_query = (if term_arg a \<noteq> [] then Some (term_arg a) else None),
           es_filters = es_visibility u (logged_in_user a) (admin a) (rss a)
                          (same_user_block u (logged_in_user a))
                        @ es_category_filters m sb mc sc @ es_quality_filters qn,
           es_sort = srt, es_slice = sl,
           es_highlight = ENABLE_ELASTIC_SEARCH_HIGHLIGHT e \<rparr>"
  note cases = es_quality_block_Inr [OF qn]
  from cases have mem: "quality_filter a \<in> {''0'', ''1'', ''2'', ''3''}"
    by blast
  from cases have qf: "es_quality_filters qn =
       (if quality_filter a = ''0'' then []
        else if quality_filter a = ''1'' then [Term ''remake'' (EsBool False)]
        else if quality_filter a = ''2'' then [Term ''trusted'' (EsBool True)]
        else [Term ''complete'' (EsBool True)])"
    by (elim disjE conjE) (simp_all add: es_quality_filters_def)
  have fs: "es_filters s =
            es_visibility u (logged_in_user a) (admin a) (rss a)
              (same_user_block u (logged_in_user a))
            @ es_category_filters m sb mc sc
            @ (if quality_filter a = ''0'' then []
               else if quality_filter a = ''1'' then [Term ''remake'' (EsBool False)]
               else if quality_filter a = ''2'' then [Term ''trusted'' (EsBool True)]
               else [Term ''complete'' (EsBool True)])"
    unfolding qf [symmetric] by (simp add: s)
  from mem u cat fs show ?thesis
    by (intro conjI exI)
qed

lemma db_quality_part:
  assumes "search_db e a = Inr q"
  shows "quality_filter a \<in> {''0'', ''1'', ''2'', ''3''}
    \<and> (\<exists>u m sb mc sc ts.
          user_block e (user a) = Inr u
        \<and> db_category_block e (category a) = Inr (m, sb, mc, sc)
        \<and> db_term_filters (term_arg a) = Inr ts
        \<and> db_filters q =
            db_visibility (TorrentFlags e) u (logged_in_user a) (admin a) (rss a)
              (same_user_block u (logged_in_user a))
            @ db_category_filters m sb mc sc
            @ (if quality_filter a = ''0'' then []
               else if quality_filter a = ''1'' then [Flags_and_is (REMAKE (TorrentFlags e)) False]
               else if quality_filter a = ''2'' then [Flags_and_is (TRUSTED (TorrentFlags e)) True]
               else [Flags_and_is (COMPLETE (TorrentFlags e)) True])
            @ ts)"
  using assms
proof (rule search_db_InrD)
  fix col ft0 u m sb mc sc ts ob
  assume ft0: "db_quality_block (TorrentFlags e) (quality_filter a) = Inr ft0"
    and u: "user_block e (user a) = Inr u"
    and cat: "db_category_block e (category a) = Inr (m, sb, mc, sc)"
    and ts: "db_term_filters (term_arg a) = Inr ts"
    and q: "q = \<lparr> db_base = (if term_arg a \<noteq> [] then TorrentNameSearch else Torrent),
           db_filters = db_visibility (TorrentFlags e) u (logged_in_user a) (admin a) (rss a)
                          (same_user_block u (logged_in_user a))
                        @ db_category_filters m sb mc sc @ db_quality_filters ft0 @ ts,
           db_joins = (if class_of (if rss a then Torrent_id else col) \<noteq> Torrent
                       then [class_of (if rss a then Torrent_id else col)] else []),
           db_order_by = ob,
           db_paging = (if rss a then Limit (per_page a)
                        else Paginate_faste (page a) (per_page a) 5) \<rparr>"
  note cases = db_quality_block_Inr [OF ft0]
  from cases have mem: "quality_filter a \<in> {''0'', ''1'', ''2'', ''3''}"
    by blast
  from cases have qf: "db_quality_filters ft0 =
       (if quality_filter a = ''0'' then []
        else if quality_filter a = ''1'' then [Flags_and_is (REMAKE (TorrentFlags e)) False]
        else if quality_filter a = ''2'' then [Flags_and_is (TRUSTED (TorrentFlags e)) True]
        else [Flags_and_is (COMPLETE (TorrentFlags e)) True])"
    by (elim disjE conjE) (simp_all add: db_quality_filters_def)
  have fs: "db_filters q =
            db_visibility (TorrentFlags e) u (logged_in_user a) (admin a) (rss a)
              (same_user_block u (logged_in_user a))
            @ db_category_filters m sb mc sc
            @ (if quality_filter a = ''0'' then []
               else if quality_filter a = ''1'' then [Flags_and_is (REMAKE (TorrentFlags e)) False]
               else if quality_filter a = ''2'' then [Flags_and_is (TRUSTED (TorrentFlags e)) True]
               else [Flags_and_is (COMPLETE (TorrentFlags e)) True])
            @ ts"
    unfolding qf [symmetric] by (simp add: q)
  from mem u cat ts fs show ?thesis
    by (intro conjI exI)
qed

lemma quality_rejection:
  assumes bad: "quality_filter a \<notin> {''0'', ''1'', ''2'', ''3''}"
    and srt: "lower (sort_arg a) \<in> {''id'', ''size'', ''seeders'', ''leechers'', ''downloads''}
           \<longrightarrow> sort_arg a \<in> {''id'', ''size'', ''seeders'', ''leechers'', ''downloads''}"
  shows "search_elastic e a = Inl (Abort 400)" and "search_db e a = Inl (Abort 400)"
proof -
  from srt have "map_of es_sort_keys (lower (sort_arg a)) \<noteq> None
                 \<longrightarrow> map_of es_sort_keys (sort_arg a) \<noteq> None"
    unfolding sort_keys_dom .
  from es_sort_block_no_KeyError [OF this, of "order_arg a" "rss a"]
  show "search_elastic e a = Inl (Abort 400)"
  proof (elim disjE exE)
    assume "es_sort_block (sort_arg a) (order_arg a) (rss a) = Inl (Abort 400)"
    then show ?thesis by (simp add: search_elastic_def)
  next
    fix k assume "es_sort_block (sort_arg a) (order_arg a) (rss a) = Inr k"
    then show ?thesis
      by (simp add: search_elastic_def quality_rejected(1) [OF bad])
  qed
  from srt have "map_of sort_keys (lower (sort_arg a)) \<noteq> None
                 \<longrightarrow> map_of sort_keys (sort_arg a) \<noteq> None"
    unfolding sort_keys_dom .
  from db_sort_block_no_KeyError [OF this, of "order_arg a"]
  show "search_db e a = Inl (Abort 400)"
  proof (elim disjE exE)
    assume "db_sort_block (sort_arg a) (order_arg a) = Inl (Abort 400)"
    then show ?thesis by (simp add: search_db_def)
  next
    fix c assume "db_sort_block (sort_arg a) (order_arg a) = Inr c"
    then show ?thesis
      by (simp add: search_db_def quality_rejected(2) [OF bad])
  qed
qed

lemma quality_filters_select:
  "es_holds (es_doc F t) (Term ''remake'' (EsBool False)) = (\<not> is_remake F t)"
  "sql_holds ft t (Flags_and_is (REMAKE F) False) = (\<not> is_remake F t)"
  "es_holds (es_doc F t) (Term ''trusted'' (EsBool True)) = is_trusted F t"
  "sql_holds ft t (Flags_and_is (TRUSTED F) True) = is_trusted F t"
  "es_holds (es_doc F t) (Term ''complete'' (EsBool True)) = is_complete F t"
  "sql_holds ft t (Flags_and_is (COMPLETE F) True) = is_complete F t"
  by (simp_all add: es_doc_fields sql_flag_filters del: sql_holds.simps(1))

lemma search_elastic_quality_1:
  "search_elastic example_env (default_args\<lparr>quality_filter := ''1''\<rparr>) =
     Inr \<lparr> es_index = Some ''nyaa'', es_query = None,
           es_filters = [Term ''deleted'' (EsBool False), Term ''hidden'' (EsBool False),
                         Term ''remake'' (EsBool False)],
           es_sort = ''-id'', es_slice = (0, 75), es_highlight = False \<rparr>"
  by code_simp

lemma search_db_quality_1:
  "search_db example_env (default_args\<lparr>quality_filter := ''1''\<rparr>) =
     Inr \<lparr> db_base = Torrent,
           db_filters = [Flags_and_is 32 False, Flags_and_is 2 False, Flags_and_is 8 False],
           db_joins = [], db_order_by = Desc Torrent_id, db_paging = Paginate_faste 1 75 5 \<rparr>"
  by code_simp

text \<open>The sort and order steps, and the category pattern.\<close>

lemma lower_sort_keys:
  "lower ''seeders'' = ''seeders''" "lower ''leechers'' = ''leechers''"
  "lower ''downloads'' = ''downloads''"
  by code_simp+

lemma es_sort_block_Inr:
  assumes "es_sort_block srt ord r = Inr x"
  shows "\<exists>k. map_of es_sort_keys srt = Some k
           \<and> x = (if ''desc'' = (if r then ''desc'' else ord) then ''-'' @ k else k)"
  using assms
  by (auto simp: es_sort_block_def Let_def sort_keys_id split: if_splits option.splits)

lemma es_sort_block_key:
  assumes k: "map_of es_sort_keys srt = Some k"
    and ord: "map_of order_keys (lower ord) \<noteq> None"
  shows "es_sort_block srt ord r
           = Inr (if ''desc'' = (if r then ''desc'' else ord) then ''-'' @ k else k)"
proof -
  from k have "srt \<in> {''id'', ''size'', ''seeders'', ''leechers'', ''downloads''}"
    using sort_keys_dom(1) [of srt] by simp
  then have "lower srt = srt"
    by (auto simp: lower_examples lower_sort_keys)
  with k ord show ?thesis
    by (simp add: es_sort_block_def Let_def sort_keys_id)
qed

lemma db_sort_block_key:
  assumes c: "map_of sort_keys srt = Some c"
    and ord: "map_of order_keys (lower ord) \<noteq> None"
  shows "db_sort_block srt ord = Inr c"
proof -
  from c have "srt \<in> {''id'', ''size'', ''seeders'', ''leechers'', ''downloads''}"
    using sort_keys_dom(2) [of srt] by simp
  then have "lower srt = srt"
    by (auto simp: lower_examples lower_sort_keys)
  with c ord show ?thesis
    by (simp add: db_sort_block_def Let_def)
qed

lemma search_db_rss_order:
  assumes "search_db e a = Inr q" and "rss a"
  shows "db_order_by q = Desc Torrent_id \<and> db_joins q = [] \<and> db_paging q = Limit (per_page a)"
  using assms(1)
proof (rule search_db_InrD)
  fix col ft u m sb mc sc ts ob
  assume ob: "db_order_block (if rss a then Torrent_id else col)
       (if rss a then ''desc'' else order_arg a) = Inr ob"
    and q: "q = \<lparr> db_base = (if term_arg a \<noteq> [] then TorrentNameSearch else Torrent),
           db_filters = db_visibility (TorrentFlags e) u (logged_in_user a) (admin a) (rss a)
                          (same_user_block u (logged_in_user a))
                        @ db_category_filters m sb mc sc @ db_quality_filters ft @ ts,
           db_joins = (if class_of (if rss a then Torrent_id else col) \<noteq> Torrent
                       then [class_of (if rss a then Torrent_id else col)] else []),
           db_order_by = ob,
           db_paging = (if rss a then Limit (per_page a)
                        else Paginate_faste (page a) (per_page a) 5) \<rparr>"
  from ob assms(2) have "ob = Desc Torrent_id"
    by (simp add: db_order_block_def)
  with q assms(2) show ?thesis by simp
qed

lemma search_db_order_AttributeError:
  assumes "\<not> rss a" and "order_arg a \<noteq> ''desc''" and "order_arg a \<noteq> ''asc''"
  shows "search_db e a \<noteq> Inr q"
    and "db_sort_block (sort_arg a) (order_arg a) = Inr c
         \<Longrightarrow> db_quality_block (TorrentFlags e) (quality_filter a) = Inr ft
         \<Longrightarrow> user_block e (user a) = Inr u
         \<Longrightarrow> db_category_block e (category a) = Inr r
         \<Longrightarrow> db_term_filters (term_arg a) = Inr ts
         \<Longrightarrow> search_db e a = Inl (AttributeError (order_arg a))"
proof -
  show "search_db e a \<noteq> Inr q"
  proof
    assume "search_db e a = Inr q"
    then show False
    proof (rule search_db_InrD)
      fix col ob
      assume "db_order_block (if rss a then Torrent_id else col)
         (if rss a then ''desc'' else order_arg a) = Inr ob"
      with assms show False
        by (simp add: db_order_block_def)
    qed
  qed
  assume "db_sort_block (sort_arg a) (order_arg a) = Inr c"
    "db_quality_block (TorrentFlags e) (quality_filter a) = Inr ft"
    "user_block e (user a) = Inr u"
    "db_category_block e (category a) = Inr r"
    "db_term_filters (term_arg a) = Inr ts"
  with assms show "search_db e a = Inl (AttributeError (order_arg a))"
    by (simp add: search_db_def sort_keys_id db_order_block_def split: prod.splits)
qed

lemma cat_match_nonempty: "cat_match e c = Some g \<Longrightarrow> c \<noteq> []"
  by (auto simp: cat_match_def)

lemma search_elastic_DESC:
  "search_elastic example_env (default_args\<lparr>order_arg := ''DESC''\<rparr>) =
     Inr \<lparr> es_index = Some ''nyaa'', es_query = None,
           es_filters = [Term ''deleted'' (EsBool False), Term ''hidden'' (EsBool False)],
           es_sort = ''id'', es_slice = (0, 75), es_highlight = False \<rparr>"
  by code_simp

lemma search_db_DESC:
  "search_db example_env (default_args\<lparr>order_arg := ''DESC''\<rparr>) = Inl (AttributeError ''DESC'')"
  by code_simp

lemma search_elastic_rss_size:
  "search_elastic example_env (default_args\<lparr>sort_arg := ''size'', rss := True\<rparr>) =
     Inr \<lparr> es_index = Some ''nyaa'', es_query = None,
           es_filters = [Term ''deleted'' (EsBool False), Term ''hidden'' (EsBool False)],
           es_sort = ''-filesize'', es_slice = (0, 75), es_highlight = False \<rparr>"
  by code_simp

lemma search_db_rss_size:
  "search_db example_env (default_args\<lparr>sort_arg := ''size'', rss := True\<rparr>) =
     Inr \<lparr> db_base = Torrent,
           db_filters = [Flags_and_is 32 False, Flags_and_is 2 False],
           db_joins = [], db_order_by = Desc Torrent_id, db_paging = Limit 75 \<rparr>"
  by code_simp

lemma search_elastic_unknown_category:
  "search_elastic example_env (default_args\<lparr>category := ustr ''3_7''\<rparr>) = Inl (Abort 400)"
  by code_simp

lemma search_db_unknown_category:
  "search_db example_env (default_args\<lparr>category := ustr ''3_7''\<rparr>) =
     Inr \<lparr> db_base = Torrent,
           db_filters = [Flags_and_is 32 False, Flags_and_is 2 False],
           db_joins = [], db_order_by = Desc Torrent_id, db_paging = Paginate_faste 1 75 5 \<rparr>"
  by code_simp

lemma cat_match_3_7: "cat_match example_env (ustr ''3_7'') = Some (ustr ''3'', ustr ''7'')"
  "int_of_decimals example_env (ustr ''3'') = 3" "int_of_decimals example_env (ustr ''7'') = 7"
  by code_simp+

text \<open>Rounding to a double: bounds, and the cases where it is exact.\<close>

lemma round_half_even_le:
  assumes "0 < d" and "n \<le> u * d"
  shows "round_half_even n d \<le> u"
proof -
  have q: "n div d \<le> u"
    using assms by (metis zdiv_mono1 nonzero_mult_div_cancel_right less_irrefl)
  show ?thesis
  proof (cases "2 * (n mod d) < d")
    case True
    with q show ?thesis by (simp add: round_half_even_def Let_def)
  next
    case False
    with assms(1) have "0 < n mod d" by linarith
    then have "(n div d) * d < n"
      by (metis add.commute less_add_same_cancel2 mult.commute mult_div_mod_eq)
    with assms(2) have "(n div d) * d < u * d" by linarith
    with assms(1) have "n div d < u"
      by (simp add: mult_less_cancel_right)
    then show ?thesis
      by (simp add: round_half_even_def Let_def)
  qed
qed

lemma round_half_even_gt:
  assumes "0 < d" and "d < 2 * (n - l * d)"
  shows "l < round_half_even n d"
proof -
  from assms have "0 < 2 * (n - l * d)" by (rule less_trans)
  then have "l * d \<le> n" by simp
  with assms(1) have q: "l \<le> n div d"
    by (metis zdiv_mono1 nonzero_mult_div_cancel_right less_irrefl)
  show ?thesis
  proof (cases "l = n div d")
    case True
    then have "n mod d = n - l * d"
      by (metis add_diff_cancel_left' mult.commute mult_div_mod_eq)
    with assms(2) True show ?thesis
      by (simp add: round_half_even_def Let_def)
  next
    case False
    with q have "l < n div d" by simp
    then show ?thesis
      by (auto simp: round_half_even_def Let_def)
  qed
qed

lemma bitlen_pos: "0 < x \<Longrightarrow> 1 \<le> bitlen x"
  by (subst compute_bitlen) (simp add: bitlen_nonneg)

lemma pow2_split: "m + n = l \<Longrightarrow> (2::int) ^ m * 2 ^ n = 2 ^ l"
  using power_add [of "2::int" m n] by (simp only:)

lemma double_exponent_small:
  assumes "0 < a" and "a < 2 ^ 53" and "0 < b"
  shows "double_exponent a b \<le> 0"
    and "b * 2 ^ 52 \<le> a * 2 ^ nat (- double_exponent a b)"
proof -
  define la where "la = bitlen a"
  define lb where "lb = bitlen b"
  define k where "k = la - lb"
  have la: "1 \<le> la" "la \<le> 53"
    using assms(1,2) bitlen_pos [of a] by (simp_all add: la_def bitlen_le_iff_power)
  have lb: "1 \<le> lb"
    using assms(3) bitlen_pos [of b] by (simp add: lb_def)
  have a_lo: "2 ^ nat (la - 1) \<le> a"
    using bitlen_bounds [OF assms(1)] by (simp add: la_def)
  have b_hi: "b < 2 ^ nat lb"
    using bitlen_bounds [OF assms(3)] by (simp add: lb_def)
  have k52: "k \<le> 52"
    using la lb by (simp add: k_def)
  define fits where "fits = (if 0 \<le> k then b * 2 ^ nat k \<le> a else b \<le> a * 2 ^ nat (- k))"
  have e: "double_exponent a b = (if fits then k else k - 1) - 52"
    by (simp add: double_exponent_def Let_def k_def la_def lb_def fits_def)
  show "double_exponent a b \<le> 0"
    using k52 by (simp add: e)
  show "b * 2 ^ 52 \<le> a * 2 ^ nat (- double_exponent a b)"
  proof (cases fits)
    case True
    then have ne: "nat (- double_exponent a b) = nat (52 - k)"
      by (simp add: e)
    show ?thesis
    proof (cases "0 \<le> k")
      case k0: True
      with True have "b * 2 ^ nat k \<le> a" by (simp add: fits_def)
      then have "b * 2 ^ nat k * 2 ^ nat (52 - k) \<le> a * 2 ^ nat (52 - k)"
        by (rule mult_right_mono) simp
      moreover have "nat k + nat (52 - k) = 52"
        using k0 k52 by linarith
      then have "(2::int) ^ nat k * 2 ^ nat (52 - k) = 2 ^ 52"
        by (rule pow2_split)
      ultimately show ?thesis
        unfolding ne by (simp only: mult.assoc)
    next
      case k0: False
      with True have "b \<le> a * 2 ^ nat (- k)" by (simp add: fits_def)
      then have "b * 2 ^ 52 \<le> a * 2 ^ nat (- k) * 2 ^ 52"
        by (rule mult_right_mono) simp
      moreover have "nat (- k) + 52 = nat (52 - k)"
        using k0 by linarith
      then have "(2::int) ^ nat (- k) * 2 ^ 52 = 2 ^ nat (52 - k)"
        by (rule pow2_split)
      ultimately show ?thesis
        unfolding ne by (simp only: mult.assoc)
    qed
  next
    case False
    then have ne: "nat (- double_exponent a b) = nat (53 - k)"
      by (simp add: e)
    have "nat (la - 1) + nat (53 - k) = 52 + nat lb"
      using la lb k52 unfolding k_def by linarith
    then have "(2::int) ^ nat (la - 1) * 2 ^ nat (53 - k) = 2 ^ (52 + nat lb)"
      by (rule pow2_split)
    then have eq: "(2::int) ^ nat (la - 1) * 2 ^ nat (53 - k) = 2 ^ 52 * 2 ^ nat lb"
      by (simp only: power_add)
    have "2 ^ nat (la - 1) * 2 ^ nat (53 - k) \<le> a * 2 ^ nat (53 - k)"
      using a_lo by (rule mult_right_mono) simp
    moreover have "b * 2 ^ 52 \<le> 2 ^ 52 * 2 ^ nat lb"
      using b_hi by simp
    ultimately show ?thesis
      unfolding ne eq by (rule order_trans [rotated])
  qed
qed

lemma round_double_pos_small:
  assumes "0 < a" and "a < 2 ^ 53" and "0 < b"
  shows "round_double_pos a b
           = of_int (round_half_even (a * 2 ^ nat (- double_exponent a b)) b)
             / of_int (2 ^ nat (- double_exponent a b))"
proof (cases "double_exponent a b = 0")
  case True
  then show ?thesis by (simp add: round_double_pos_def)
next
  case False
  with double_exponent_small(1) [OF assms] have "\<not> 0 \<le> double_exponent a b" by simp
  then show ?thesis by (simp add: round_double_pos_def Let_def)
qed

lemma ceiling_round_double_pos:
  assumes "0 < a" and "a < 2 ^ 53" and "0 < b"
  shows "\<lceil>round_double_pos a b\<rceil> = \<lceil>(of_int a / of_int b :: rat)\<rceil>"
proof -
  define s where "s = nat (- double_exponent a b)"
  define n where "n = \<lceil>(of_int a / of_int b :: rat)\<rceil>"
  define q where "q = round_half_even (a * 2 ^ s) b"
  have p2: "(0::int) < 2 ^ s" by simp
  have big: "b * 2 ^ 52 \<le> a * 2 ^ s"
    using double_exponent_small(2) [OF assms] by (simp add: s_def)
  have "(of_int a / of_int b :: rat) \<le> of_int n"
    by (simp add: n_def)
  then have "(of_int a :: rat) \<le> of_int n * of_int b"
    using assms(3) by (simp add: pos_divide_le_eq)
  then have up: "a \<le> n * b"
    by (metis of_int_le_iff of_int_mult)
  have "of_int n - 1 < (of_int a / of_int b :: rat)"
    unfolding n_def by linarith
  then have "(of_int (n - 1) :: rat) * of_int b < of_int a"
    using assms(3) by (simp add: pos_less_divide_eq)
  then have lo: "(n - 1) * b < a"
    by (metis of_int_less_iff of_int_mult)
  have "a * 2 ^ s \<le> n * b * 2 ^ s"
    using up by (rule mult_right_mono) simp
  then have "a * 2 ^ s \<le> (n * 2 ^ s) * b"
    by (simp add: mult.commute mult.left_commute)
  with assms(3) have q_le: "q \<le> n * 2 ^ s"
    unfolding q_def by (rule round_half_even_le)
  have "b * 2 ^ 52 < 2 ^ 53 * 2 ^ s"
  proof -
    have "a * 2 ^ s < 2 ^ 53 * 2 ^ s"
      using assms(2) p2 by (simp only: mult_less_cancel_right_pos)
    with big show ?thesis by (rule le_less_trans)
  qed
  then have b_small: "b < 2 * 2 ^ s" by simp
  have "1 \<le> a - (n - 1) * b" using lo by simp
  then have "1 * 2 ^ s \<le> (a - (n - 1) * b) * 2 ^ s"
    by (rule mult_right_mono) simp
  then have "2 * 2 ^ s \<le> 2 * (a * 2 ^ s - ((n - 1) * 2 ^ s) * b)"
    by (simp add: algebra_simps)
  with b_small have "b < 2 * (a * 2 ^ s - ((n - 1) * 2 ^ s) * b)"
    by (rule less_le_trans)
  with assms(3) have q_gt: "(n - 1) * 2 ^ s < q"
    unfolding q_def by (rule round_half_even_gt)
  have r: "round_double_pos a b = of_int q / of_int (2 ^ s)"
    using round_double_pos_small [OF assms] by (simp add: q_def s_def)
  have "\<lceil>(of_int q / of_int (2 ^ s) :: rat)\<rceil> = n"
  proof (rule ceiling_unique)
    have "(of_int ((n - 1) * 2 ^ s) :: rat) < of_int q"
      using q_gt by (simp only: of_int_less_iff)
    then show "of_int n - 1 < (of_int q / of_int (2 ^ s) :: rat)"
      by (simp add: pos_less_divide_eq)
    have "(of_int q :: rat) \<le> of_int (n * 2 ^ s)"
      using q_le by (simp only: of_int_le_iff)
    then show "(of_int q / of_int (2 ^ s) :: rat) \<le> of_int n"
      by (simp add: pos_divide_le_eq)
  qed
  then show ?thesis
    by (simp add: r n_def)
qed

lemma round_half_even_one: "round_half_even n 1 = n"
  by (simp add: round_half_even_def)

lemma round_double_int:
  assumes "0 \<le> n" and "n < 2 ^ 53"
  shows "round_double (of_int n) = of_int n"
proof (cases "n = 0")
  case True
  then show ?thesis by (simp add: round_double_def)
next
  case False
  with assms have pos: "0 < n" by simp
  have "round_double (of_int n) = round_double_pos n 1"
    using pos by (simp add: round_double_def quotient_of_int)
  also have "\<dots> = of_int (n * 2 ^ nat (- double_exponent n 1))
                     / of_int (2 ^ nat (- double_exponent n 1))"
    using round_double_pos_small [OF pos assms(2), of 1] by (simp add: round_half_even_one)
  also have "\<dots> = of_int n"
    by simp
  finally show ?thesis .
qed

lemma quotient_of_pos_ratio:
  assumes "0 < m" and "0 < p" and "quotient_of (of_int m / of_int p) = (a, b)"
  shows "0 < a" and "a \<le> m" and "0 < b"
    and "(of_int a / of_int b :: rat) = of_int m / of_int p"
proof -
  show b: "0 < b"
    using assms(3) by (rule quotient_of_denom_pos)
  show eq: "(of_int a / of_int b :: rat) = of_int m / of_int p"
    using quotient_of_div [OF assms(3)] by simp
  have "(0::rat) < of_int m / of_int p"
    using assms(1,2) by simp
  with eq have "(0::rat) < of_int a / of_int b" by simp
  with b show a: "0 < a"
    by (simp add: zero_less_divide_iff)
  from assms(2,3) have "a = m div gcd m p"
    by (simp add: Fract_of_int_quotient [symmetric] quotient_of_Fract normalize_def Let_def)
  moreover have "m div gcd m p \<le> m"
    using assms(1) by (simp add: int_div_le_self)
  ultimately show "a \<le> m" by simp
qed

lemma ceiling_float_quotient:
  assumes "0 < m" and "m < 2 ^ 53" and "0 < p"
  shows "\<lceil>round_double (of_int m / of_int p)\<rceil> = \<lceil>(of_int m / of_int p :: rat)\<rceil>"
proof -
  obtain a b where ab: "quotient_of (of_int m / of_int p) = (a, b)"
    by (cases "quotient_of (of_int m / of_int p)")
  note q = quotient_of_pos_ratio [OF assms(1,3) ab]
  from q(2) assms(2) have small: "a < 2 ^ 53" by simp
  have "round_double (of_int m / of_int p) = round_double_pos a b"
    using q(1) by (simp add: round_double_def ab)
  then show ?thesis
    using ceiling_round_double_pos [OF q(1) small q(3)] q(4) by simp
qed

text \<open>The conversions and the slice for operands below \<open>2^53\<close>.\<close>

lemma py_float_small:
  assumes "0 \<le> n" and "n < 2 ^ 53"
  shows "py_float n = Inr (of_int n)"
proof -
  have "(of_int n :: rat) < of_int (2 ^ 53)"
    using assms(2) by (simp only: of_int_less_iff)
  also have "\<dots> \<le> 2 ^ 1024"
    by (simp add: power_increasing)
  finally have "\<not> 2 ^ 1024 \<le> \<bar>of_int n :: rat\<bar>"
    using assms(1) by simp
  then show ?thesis
    by (simp add: py_float_def round_double_int [OF assms])
qed

lemma ceiling_quotient_pos:
  assumes "1 \<le> mx" and "1 \<le> pp"
  shows "1 \<le> \<lceil>(of_int mx / of_int pp :: rat)\<rceil>"
proof -
  have "(0::rat) < of_int mx / of_int pp"
    using assms by simp
  then have "0 < \<lceil>(of_int mx / of_int pp :: rat)\<rceil>"
    by (simp only: zero_less_ceiling)
  then show ?thesis by simp
qed

lemma es_slice_block_float:
  assumes "1 \<le> pp" and "pp < 2 ^ 53" and "1 \<le> mx" and "mx < 2 ^ 53"
  shows "es_slice_block False pg pp mx =
           search_slice ((min pg \<lceil>(of_int mx / of_int pp :: rat)\<rceil> - 1) * pp)
             (min mx (min pg \<lceil>(of_int mx / of_int pp :: rat)\<rceil> * pp))"
proof -
  have pp: "py_float pp = Inr (of_int pp)"
    using assms(1,2) by (simp add: py_float_small)
  have mx: "py_float mx = Inr (of_int mx)"
    using assms(3,4) by (simp add: py_float_small)
  have c: "\<lceil>round_double (of_int mx / of_int pp)\<rceil> = \<lceil>(of_int mx / of_int pp :: rat)\<rceil>"
    using assms by (intro ceiling_float_quotient) simp_all
  have nz: "pp \<noteq> 0"
    using assms(1) by simp
  show ?thesis
    by (simp add: es_slice_block_def pp mx c nz Let_def)
qed

lemma es_slice_block_window:
  assumes "1 \<le> pg" and "1 \<le> pp" and "pp < 2 ^ 53" and "1 \<le> mx" and "mx < 2 ^ 53"
  shows "es_slice_block False pg pp mx =
           Inr ((min pg \<lceil>(of_int mx / of_int pp :: rat)\<rceil> - 1) * pp,
                min mx (min pg \<lceil>(of_int mx / of_int pp :: rat)\<rceil> * pp))"
proof -
  define ep where "ep = min pg \<lceil>(of_int mx / of_int pp :: rat)\<rceil>"
  have ep: "1 \<le> ep"
    using assms(1) ceiling_quotient_pos [OF assms(4,2)] by (simp add: ep_def)
  then have from_idx: "\<not> (ep - 1) * pp < 0"
    using assms(2) by (simp add: not_less)
  have "0 \<le> ep * pp"
    using ep assms(2) by simp
  with assms(4) have to_idx: "\<not> min mx (ep * pp) < 0"
    by linarith
  show ?thesis
    unfolding es_slice_block_float [OF assms(2-5)] ep_def [symmetric]
    using from_idx to_idx by (simp add: search_slice_def)
qed

lemma es_slice_block_page_low:
  assumes "pg \<le> 0" and "1 \<le> pp" and "pp < 2 ^ 53" and "1 \<le> mx" and "mx < 2 ^ 53"
  shows "es_slice_block False pg pp mx = Inl ValueError"
proof -
  have "min pg \<lceil>(of_int mx / of_int pp :: rat)\<rceil> = pg"
    using assms(1) ceiling_quotient_pos [OF assms(4,2)] by linarith
  moreover have "(pg - 1) * pp < 0"
    using assms(1,2) by (simp add: mult_less_0_iff)
  ultimately show ?thesis
    unfolding es_slice_block_float [OF assms(2-5)] by (simp add: search_slice_def)
qed

lemma es_slice_block_per_page_0:
  assumes "0 \<le> mx" and "mx < 2 ^ 53"
  shows "es_slice_block False pg 0 mx = Inl ZeroDivisionError"
proof -
  have "py_float 0 = Inr 0"
    using py_float_small [of 0] by simp
  moreover have "py_float mx = Inr (of_int mx)"
    using assms by (rule py_float_small)
  ultimately show ?thesis
    by (simp add: es_slice_block_def)
qed

lemma es_slice_block_rss:
  "es_slice_block True pg pp mx = (if pp < 0 then Inl ValueError else Inr (0, pp))"
  by (simp add: es_slice_block_def search_slice_def)


text \<open>When every step of a function returns, the function returns the query built from them.\<close>

lemma search_elastic_InrI:
  assumes "es_sort_block (sort_arg a) (order_arg a) (rss a) = Inr srt"
    and "es_quality_block (quality_filter a) = Inr qn"
    and "es_category_block e (category a) = Inr (m, sb, mc, sc)"
    and "user_block e (user a) = Inr u"
    and "es_slice_block (rss a) (page a) (per_page a) (max_search_results a) = Inr sl"
  shows "search_elastic e a =
     Inr \<lparr> es_index = ES_INDEX_NAME e,
           es_query = (if term_arg a \<noteq> [] then Some (term_arg a) else None),
           es_filters = es_visibility u (logged_in_user a) (admin a) (rss a)
                          (same_user_block u (logged_in_user a))
                        @ es_category_filters m sb mc sc @ es_quality_filters qn,
           es_sort = srt, es_slice = sl,
           es_highlight = ENABLE_ELASTIC_SEARCH_HIGHLIGHT e \<rparr>"
  using assms by (simp add: search_elastic_def Let_def)

lemma search_elastic_slice_Inl:
  assumes "es_sort_block (sort_arg a) (order_arg a) (rss a) = Inr srt"
    and "es_quality_block (quality_filter a) = Inr qn"
    and "es_category_block e (category a) = Inr (m, sb, mc, sc)"
    and "user_block e (user a) = Inr u"
    and "es_slice_block (rss a) (page a) (per_page a) (max_search_results a) = Inl err"
  shows "search_elastic e a = Inl err"
  using assms by (simp add: search_elastic_def Let_def)

lemma search_db_InrI:
  assumes "db_sort_block (sort_arg a) (order_arg a) = Inr col"
    and "db_quality_block (TorrentFlags e) (quality_filter a) = Inr ft"
    and "user_block e (user a) = Inr u"
    and "db_category_block e (category a) = Inr (m, sb, mc, sc)"
    and "db_term_filters (term_arg a) = Inr ts"
    and "db_order_block (if rss a then Torrent_id else col)
           (if rss a then ''desc'' else order_arg a) = Inr ob"
  shows "search_db e a =
     Inr \<lparr> db_base = (if term_arg a \<noteq> [] then TorrentNameSearch else Torrent),
           db_filters = db_visibility (TorrentFlags e) u (logged_in_user a) (admin a) (rss a)
                          (same_user_block u (logged_in_user a))
                        @ db_category_filters m sb mc sc @ db_quality_filters ft @ ts,
           db_joins = (if class_of (if rss a then Torrent_id else col) \<noteq> Torrent
                       then [class_of (if rss a then Torrent_id else col)] else []),
           db_order_by = ob,
           db_paging = (if rss a then Limit (per_page a)
                        else Paginate_faste (page a) (per_page a) 5) \<rparr>"
  using assms by (cases "rss a") (simp_all add: search_db_def Let_def sort_keys_id)

lemma search_db_term_Inl:
  assumes "db_sort_block (sort_arg a) (order_arg a) = Inr col"
    and "db_quality_block (TorrentFlags e) (quality_filter a) = Inr ft"
    and "user_block e (user a) = Inr u"
    and "db_category_block e (category a) = Inr (m, sb, mc, sc)"
    and "db_term_filters (term_arg a) = Inl err"
  shows "search_db e a = Inl err"
  using assms by (simp add: search_db_def Let_def sort_keys_id split: prod.splits)


text \<open>The tokenizer: its output so far is only extended, and how each kind of token is read.\<close>

lemma read_tokens_out:
  "read_tokens st tok out s = map_sum id ((@) out) (read_tokens st tok [] s)"
proof (induction s arbitrary: st tok out)
  case Nil
  show ?case by (cases st) simp_all
next
  case (Cons c cs)
  have step: "read_tokens st' tok' (out @ [x]) cs
                = map_sum id ((@) out) (read_tokens st' tok' [x] cs)" for st' tok' x
    by (simp add: Cons [of st' tok' "out @ [x]"] Cons [of st' tok' "[x]"] sum.map_comp comp_def
          id_def)
  show ?case
    by (cases st) (simp_all add: Cons [of _ _ out] step id_def)
qed

lemma read_tokens_next:
  "read_tokens Space [] [item] s = map_sum id (\<lambda>items. item # items) (shlex_split s)"
  unfolding shlex_split_def read_tokens_out [of Space "[]" "[item]" s]
  by (cases "read_tokens Space [] [] s") simp_all

lemma is_quote_not_whitespace: "is_quote c \<Longrightarrow> \<not> is_whitespace c"
  by (auto simp: is_quote_def is_whitespace_def)

lemma read_quote_closed:
  "q \<notin> set body \<Longrightarrow>
   read_tokens (Quote q) tok out (body @ q # rest)
     = read_tokens Space [] (out @ [tok @ body @ [q]]) rest"
  by (induction body arbitrary: tok) auto

lemma read_quote_open:
  "q \<notin> set body \<Longrightarrow> read_tokens (Quote q) tok out body = Inl ValueError"
  by (induction body arbitrary: tok) auto

lemma read_word_end:
  "\<forall>x\<in>set w. \<not> is_whitespace x \<Longrightarrow> read_tokens Word tok out w = Inr (out @ [tok @ w])"
  by (induction w arbitrary: tok) auto

lemma read_word_space:
  "\<forall>x\<in>set w. \<not> is_whitespace x \<Longrightarrow> is_whitespace sp \<Longrightarrow>
   read_tokens Word tok out (w @ sp # rest) = read_tokens Space [] (out @ [tok @ w]) rest"
  by (induction w arbitrary: tok) auto

lemma shlex_split_whitespace:
  "is_whitespace c \<Longrightarrow> shlex_split (c # rest) = shlex_split rest"
  by (simp add: shlex_split_def)

lemma shlex_split_quoted:
  assumes "is_quote q" and "q \<notin> set body"
  shows "shlex_split (q # body @ q # rest)
           = map_sum id (\<lambda>items. (q # body @ [q]) # items) (shlex_split rest)"
    and "shlex_split (q # body) = Inl ValueError"
proof -
  have "shlex_split (q # body @ q # rest) = read_tokens (Quote q) [q] [] (body @ q # rest)"
    using assms(1) by (simp add: shlex_split_def is_quote_not_whitespace)
  also have "\<dots> = read_tokens Space [] [q # body @ [q]] rest"
    using assms(2) by (simp add: read_quote_closed)
  finally show "shlex_split (q # body @ q # rest)
           = map_sum id (\<lambda>items. (q # body @ [q]) # items) (shlex_split rest)"
    by (simp only: read_tokens_next)
  have "shlex_split (q # body) = read_tokens (Quote q) [q] [] body"
    using assms(1) by (simp add: shlex_split_def is_quote_not_whitespace)
  then show "shlex_split (q # body) = Inl ValueError"
    using assms(2) by (simp add: read_quote_open)
qed

lemma shlex_split_word:
  assumes "\<not> is_whitespace c" and "\<not> is_quote c" and "\<forall>x\<in>set w. \<not> is_whitespace x"
  shows "shlex_split (c # w) = Inr [c # w]"
    and "is_whitespace sp \<Longrightarrow>
         shlex_split (c # w @ sp # rest)
           = map_sum id (\<lambda>items. (c # w) # items) (shlex_split rest)"
proof -
  show "shlex_split (c # w) = Inr [c # w]"
    using assms by (simp add: shlex_split_def read_word_end)
  assume sp: "is_whitespace sp"
  have "shlex_split (c # w @ sp # rest) = read_tokens Word [c] [] (w @ sp # rest)"
    using assms(1,2) by (simp add: shlex_split_def)
  also have "\<dots> = read_tokens Space [] [c # w] rest"
    using assms(3) sp by (simp add: read_word_space)
  finally show "shlex_split (c # w @ sp # rest)
           = map_sum id (\<lambda>items. (c # w) # items) (shlex_split rest)"
    by (simp only: read_tokens_next)
qed

lemma shlex_split_error: "shlex_split s = Inl err \<Longrightarrow> err = ValueError"
proof -
  have "read_tokens st tok out s = Inl err \<Longrightarrow> err = ValueError" for st tok out
    by (induction st tok out s rule: read_tokens.induct) (auto split: if_splits)
  then show "shlex_split s = Inl err \<Longrightarrow> err = ValueError"
    by (simp add: shlex_split_def)
qed


text \<open>The full-text predicates of a compiled datastore query are those of its term.\<close>

lemma db_term_filters_fulltext:
  assumes "db_term_filters t = Inr ts"
  shows "filter is_fulltext ts = ts" and "filter (\<lambda>f. \<not> is_fulltext f) ts = []"
  using assms
  by (auto simp: db_term_filters_def fulltext_map not_fulltext_map split: if_splits sum.splits)

lemma search_db_filters_split:
  assumes "search_db e a = Inr q"
  obtains pre ts where "db_filters q = pre @ ts" and "db_term_filters (term_arg a) = Inr ts"
    and "filter is_fulltext pre = []"
    and "db_base q = (if term_arg a \<noteq> [] then TorrentNameSearch else Torrent)"
  using assms
proof (rule search_db_InrD)
  fix col ft0 u m sb mc sc ts ob
  assume ts: "db_term_filters (term_arg a) = Inr ts"
    and q: "q = \<lparr> db_base = (if term_arg a \<noteq> [] then TorrentNameSearch else Torrent),
           db_filters = db_visibility (TorrentFlags e) u (logged_in_user a) (admin a) (rss a)
                          (same_user_block u (logged_in_user a))
                        @ db_category_filters m sb mc sc @ db_quality_filters ft0 @ ts,
           db_joins = (if class_of (if rss a then Torrent_id else col) \<noteq> Torrent
                       then [class_of (if rss a then Torrent_id else col)] else []),
           db_order_by = ob,
           db_paging = (if rss a then Limit (per_page a)
                        else Paginate_faste (page a) (per_page a) 5) \<rparr>"
  define pre where "pre = db_visibility (TorrentFlags e) u (logged_in_user a) (admin a) (rss a)
                (same_user_block u (logged_in_user a))
              @ db_category_filters m sb mc sc @ db_quality_filters ft0"
  have fs: "db_filters q = pre @ ts"
    by (simp add: q pre_def)
  have pre: "filter is_fulltext pre = []"
    unfolding pre_def filter_append no_fulltext_before_term by simp
  have base: "db_base q = (if term_arg a \<noteq> [] then TorrentNameSearch else Torrent)"
    by (simp add: q)
  from fs ts pre base show thesis
    by (rule that)
qed

lemma search_db_fulltext:
  assumes "search_db e a = Inr q"
  shows "db_term_filters (term_arg a) = Inr (filter is_fulltext (db_filters q))"
  using assms
proof (rule search_db_filters_split)
  fix pre ts
  assume "db_filters q = pre @ ts" and ts: "db_term_filters (term_arg a) = Inr ts"
    and "filter is_fulltext pre = []"
  then have "filter is_fulltext (db_filters q) = ts"
    by (simp add: db_term_filters_fulltext(1) [OF ts])
  with ts show ?thesis by simp
qed

lemma db_term_part:
  assumes "search_db e a = Inr q" and "term_arg a \<noteq> []"
  shows "\<exists>items.
           shlex_split (term_arg a) = Inr items
         \<and> db_base q = TorrentNameSearch
         \<and> filter is_fulltext (db_filters q)
             = map FullTextSearch (filter (\<lambda>item. 2 \<le> length item) items)
         \<and> (\<forall>ft t. list_all (sql_holds ft t) (db_filters q)
              = (list_all (sql_holds ft t) (filter (\<lambda>f. \<not> is_fulltext f) (db_filters q))
                 \<and> (\<forall>item\<in>set items. 2 \<le> length item \<longrightarrow> ft item t)))"
  using assms(1)
proof (rule search_db_filters_split)
  fix pre ts
  assume fs: "db_filters q = pre @ ts" and ts: "db_term_filters (term_arg a) = Inr ts"
    and pre: "filter is_fulltext pre = []"
    and base: "db_base q = (if term_arg a \<noteq> [] then TorrentNameSearch else Torrent)"
  from ts assms(2) obtain items where
    items: "shlex_split (term_arg a) = Inr items"
    and ts_eq: "ts = map FullTextSearch (filter (\<lambda>item. 2 \<le> length item) items)"
    by (auto simp: db_term_filters_def split: sum.splits)
  have pre': "filter (\<lambda>f. \<not> is_fulltext f) pre = pre"
    using pre by (rule keep_not_fulltext)
  have match: "filter is_fulltext (db_filters q)
                 = map FullTextSearch (filter (\<lambda>item. 2 \<le> length item) items)"
    unfolding fs filter_append pre ts_eq fulltext_map by simp
  have rest: "filter (\<lambda>f. \<not> is_fulltext f) (db_filters q) = pre"
    unfolding fs filter_append pre' ts_eq not_fulltext_map by simp
  have all_items: "list_all (\<lambda>item. ft item t) (filter (\<lambda>item. 2 \<le> length item) items)
              = (\<forall>item\<in>set items. 2 \<le> length item \<longrightarrow> ft item t)" for ft t
    by (auto simp: list_all_iff)
  have sem: "\<forall>ft t. list_all (sql_holds ft t) (db_filters q)
              = (list_all (sql_holds ft t) (filter (\<lambda>f. \<not> is_fulltext f) (db_filters q))
                 \<and> (\<forall>item\<in>set items. 2 \<le> length item \<longrightarrow> ft item t))"
    unfolding rest all_items [symmetric] unfolding fs ts_eq
    by (simp add: list.pred_map comp_def)
  have b: "db_base q = TorrentNameSearch"
    using base assms(2) by simp
  from items b match sem show ?thesis
    by (intro exI [of _ items] conjI)
qed

lemma db_term_filters_examples:
  "db_term_filters (ustr ''foo bar'')
     = Inr [FullTextSearch (ustr ''foo''), FullTextSearch (ustr ''bar'')]"
  "db_term_filters (ustr ''a b'') = Inr []"
  "db_term_filters quoted_term
     = Inr [FullTextSearch ([34] @ ustr ''foo bar'' @ [34]),
            FullTextSearch ([39] @ ustr ''y z'' @ [39])]"
  "db_term_filters one_character_term = Inr []"
  "db_term_filters unclosed_term = Inl ValueError"
  by code_simp+

lemma search_db_quoted_term:
  "search_db example_env (default_args\<lparr>term_arg := quoted_term\<rparr>) =
     Inr \<lparr> db_base = TorrentNameSearch,
           db_filters = [Flags_and_is 32 False, Flags_and_is 2 False,
                         FullTextSearch ([34] @ ustr ''foo bar'' @ [34]),
                         FullTextSearch ([39] @ ustr ''y z'' @ [39])],
           db_joins = [], db_order_by = Desc Torrent_id, db_paging = Paginate_faste 1 75 5 \<rparr>"
  by code_simp

lemma search_db_one_character_term:
  "search_db example_env (default_args\<lparr>term_arg := one_character_term\<rparr>) =
     Inr \<lparr> db_base = TorrentNameSearch,
           db_filters = [Flags_and_is 32 False, Flags_and_is 2 False],
           db_joins = [], db_order_by = Desc Torrent_id, db_paging = Paginate_faste 1 75 5 \<rparr>"
  by code_simp


text \<open>The quality step on the four codes, and the sort lookup that runs before it.\<close>

lemma quality_accepted:
  assumes "q \<in> {''0'', ''1'', ''2'', ''3''}"
  shows "es_quality_block q
           = Inr (if q = ''0'' then 0 else if q = ''1'' then 1 else if q = ''2'' then 2 else 3)"
    and "db_quality_block F q
           = Inr (if q = ''0'' then None
                  else if q = ''1'' then Some (REMAKE F, False)
                  else if q = ''2'' then Some (TRUSTED F, True)
                  else Some (COMPLETE F, True))"
  using assms
  by (auto simp: es_quality_block_def db_quality_block_def filter_keys_def quality_keys_def
        lower_examples py_int_examples)

lemma quality_accepted_filters:
  assumes "q \<in> {''0'', ''1'', ''2'', ''3''}"
  shows "\<exists>n. es_quality_block q = Inr n
           \<and> es_quality_filters n =
               (if q = ''0'' then []
                else if q = ''1'' then [Term ''remake'' (EsBool False)]
                else if q = ''2'' then [Term ''trusted'' (EsBool True)]
                else [Term ''complete'' (EsBool True)])"
    and "\<exists>ft. db_quality_block F q = Inr ft
           \<and> db_quality_filters ft =
               (if q = ''0'' then []
                else if q = ''1'' then [Flags_and_is (REMAKE F) False]
                else if q = ''2'' then [Flags_and_is (TRUSTED F) True]
                else [Flags_and_is (COMPLETE F) True])"
  unfolding quality_accepted [OF assms]
  by (simp_all add: es_quality_filters_def db_quality_filters_def)

lemma sort_lower_only:
  assumes "lower (sort_arg a) \<in> {''id'', ''size'', ''seeders'', ''leechers'', ''downloads''}"
    and "sort_arg a \<notin> {''id'', ''size'', ''seeders'', ''leechers'', ''downloads''}"
  shows "search_elastic e a = Inl (KeyError (sort_arg a))"
    and "search_db e a = Inl (KeyError (sort_arg a))"
proof -
  have low: "map_of es_sort_keys (lower (sort_arg a)) \<noteq> None"
       "map_of sort_keys (lower (sort_arg a)) \<noteq> None"
    using assms(1) unfolding sort_keys_dom by simp_all
  have raw: "map_of es_sort_keys (sort_arg a) = None" "map_of sort_keys (sort_arg a) = None"
    using assms(2) sort_keys_dom [of "sort_arg a"] by simp_all
  have "es_sort_block (sort_arg a) (order_arg a) (rss a) = Inl (KeyError (sort_arg a))"
    using low(1) raw(1) by (simp add: es_sort_block_def Let_def)
  then show "search_elastic e a = Inl (KeyError (sort_arg a))"
    by (simp add: search_elastic_def)
  have "db_sort_block (sort_arg a) (order_arg a) = Inl (KeyError (sort_arg a))"
    using low(2) raw(2) by (simp add: db_sort_block_def Let_def)
  then show "search_db e a = Inl (KeyError (sort_arg a))"
    by (simp add: search_db_def)
qed

lemma search_elastic_ID_9:
  "search_elastic example_env (default_args\<lparr>sort_arg := ''ID'', quality_filter := ''9''\<rparr>)
     = Inl (KeyError ''ID'')"
  by code_simp

lemma search_db_ID_9:
  "search_db example_env (default_args\<lparr>sort_arg := ''ID'', quality_filter := ''9''\<rparr>)
     = Inl (KeyError ''ID'')"
  by code_simp


section \<open>The sort of an RSS request\<close>

text \<open>
  Claim C1. For an RSS request, \<^verbatim>\<open>search_db\<close> replaces the sort column by
  \<^verbatim>\<open>Torrent.id\<close> and the order by \<open>desc\<close> before it builds \<^verbatim>\<open>order_by\<close>, so its query
  is ordered by id, descending, whatever the caller asked for. \<^verbatim>\<open>search_elastic\<close> has
  computed \<^verbatim>\<open>es_sort\<close> from the caller's sort key before its RSS branch (whose comment
  reads \<^verbatim>\<open>Only allow ID, desc if RSS\<close>), and the branch assigns \<^verbatim>\<open>sort\<close> and
  \<^verbatim>\<open>order\<close> only: its query is sorted descending by the caller's key, not by id.
\<close>

theorem rss_sort:
  assumes "rss a"
  shows "(\<forall>s. search_elastic e a = Inr s \<longrightarrow>
            (\<exists>k. map_of es_sort_keys (sort_arg a) = Some k \<and> es_sort s = ''-'' @ k))
       \<and> (\<forall>q. search_db e a = Inr q \<longrightarrow> db_order_by q = Desc Torrent_id \<and> db_joins q = [])"
proof (intro conjI allI impI)
  fix s assume "search_elastic e a = Inr s"
  then obtain srt where "es_sort_block (sort_arg a) (order_arg a) (rss a) = Inr srt"
    and "es_sort s = srt"
    by (rule search_elastic_InrD) simp
  with es_sort_block_Inr [of "sort_arg a" "order_arg a" "rss a" srt] assms
  show "\<exists>k. map_of es_sort_keys (sort_arg a) = Some k \<and> es_sort s = ''-'' @ k"
    by auto
next
  fix q assume "search_db e a = Inr q"
  from search_db_rss_order [OF this assms] show "db_order_by q = Desc Torrent_id" by blast
next
  fix q assume "search_db e a = Inr q"
  from search_db_rss_order [OF this assms] show "db_joins q = []" by blast
qed

theorem rss_sort_witness:
  "rss (default_args\<lparr>sort_arg := ''size'', rss := True\<rparr>)
   \<and> map_sum id es_sort
       (search_elastic example_env (default_args\<lparr>sort_arg := ''size'', rss := True\<rparr>))
       = Inr ''-filesize''
   \<and> map_sum id db_order_by
       (search_db example_env (default_args\<lparr>sort_arg := ''size'', rss := True\<rparr>))
       = Inr (Desc Torrent_id)"
proof -
  let ?a = "default_args\<lparr>sort_arg := ''size'', rss := True\<rparr>"
  have r: "rss ?a" by simp
  from rss_sort [OF r, of example_env, THEN conjunct2, rule_format, OF search_db_rss_size]
  have "db_order_by \<lparr> db_base = Torrent,
           db_filters = [Flags_and_is 32 False, Flags_and_is 2 False],
           db_joins = [], db_order_by = Desc Torrent_id, db_paging = Limit 75 \<rparr>
          = Desc Torrent_id" by blast
  then show ?thesis
    by (simp add: search_elastic_rss_size search_db_rss_size)
qed

section \<open>Visibility\<close>

text \<open>
  Claim C2. The filters of a compiled index query start with the visibility filters of
  lines 114-145, and those of a compiled datastore query with the visibility filters of
  lines 264-289, both for the viewed user that lines 95-99 and 223-227 return and for the
  logged-in user, the admin flag and the RSS flag of the request; what follows are the
  category, quality and term filters. For every viewed user, logged-in user, admin flag
  and RSS flag, a record passes the visibility filters of the index query (evaluated on
  the record's index document) exactly when it passes those of the datastore query
  (evaluated on the row): the conditions on deleted, hidden, anonymous and the uploader
  are the same in both backends.
\<close>

theorem visibility_equivalence:
  "(\<forall>s. search_elastic e a = Inr s \<longrightarrow>
      (\<exists>u m sb mc sc qn.
          user_block e (user a) = Inr u
        \<and> es_category_block e (category a) = Inr (m, sb, mc, sc)
        \<and> es_quality_block (quality_filter a) = Inr qn
        \<and> es_filters s =
            es_visibility u (logged_in_user a) (admin a) (rss a)
              (same_user_block u (logged_in_user a))
            @ es_category_filters m sb mc sc @ es_quality_filters qn))
 \<and> (\<forall>q. search_db e a = Inr q \<longrightarrow>
      (\<exists>u m sb mc sc ft ts.
          user_block e (user a) = Inr u
        \<and> db_category_block e (category a) = Inr (m, sb, mc, sc)
        \<and> db_quality_block (TorrentFlags e) (quality_filter a) = Inr ft
        \<and> db_term_filters (term_arg a) = Inr ts
        \<and> db_filters q =
            db_visibility (TorrentFlags e) u (logged_in_user a) (admin a) (rss a)
              (same_user_block u (logged_in_user a))
            @ db_category_filters m sb mc sc @ db_quality_filters ft @ ts))
 \<and> (\<forall>F t u li is_admin is_rss ft.
      list_all (es_holds (es_doc F t))
        (es_visibility u li is_admin is_rss (same_user_block u li))
      = list_all (sql_holds ft t)
          (db_visibility F u li is_admin is_rss (same_user_block u li)))"
proof (intro conjI allI impI)
  fix s assume "search_elastic e a = Inr s"
  then show "\<exists>u m sb mc sc qn.
          user_block e (user a) = Inr u
        \<and> es_category_block e (category a) = Inr (m, sb, mc, sc)
        \<and> es_quality_block (quality_filter a) = Inr qn
        \<and> es_filters s =
            es_visibility u (logged_in_user a) (admin a) (rss a)
              (same_user_block u (logged_in_user a))
            @ es_category_filters m sb mc sc @ es_quality_filters qn"
  proof (rule search_elastic_InrD)
    fix srt qn m sb mc sc u sl
    assume "es_quality_block (quality_filter a) = Inr qn"
      and "es_category_block e (category a) = Inr (m, sb, mc, sc)"
      and "user_block e (user a) = Inr u"
      and "s = \<lparr> es_index = ES_INDEX_NAME e,
           es_query = (if term_arg a \<noteq> [] then Some (term_arg a) else None),
           es_filters = es_visibility u (logged_in_user a) (admin a) (rss a)
                          (same_user_block u (logged_in_user a))
                        @ es_category_filters m sb mc sc @ es_quality_filters qn,
           es_sort = srt, es_slice = sl,
           es_highlight = ENABLE_ELASTIC_SEARCH_HIGHLIGHT e \<rparr>"
    then show ?thesis
      by (intro exI [of _ u] exI [of _ m] exI [of _ sb] exI [of _ mc] exI [of _ sc]
            exI [of _ qn]) simp
  qed
next
  fix q assume "search_db e a = Inr q"
  then show "\<exists>u m sb mc sc ft ts.
          user_block e (user a) = Inr u
        \<and> db_category_block e (category a) = Inr (m, sb, mc, sc)
        \<and> db_quality_block (TorrentFlags e) (quality_filter a) = Inr ft
        \<and> db_term_filters (term_arg a) = Inr ts
        \<and> db_filters q =
            db_visibility (TorrentFlags e) u (logged_in_user a) (admin a) (rss a)
              (same_user_block u (logged_in_user a))
            @ db_category_filters m sb mc sc @ db_quality_filters ft @ ts"
  proof (rule search_db_InrD)
    fix col ft u m sb mc sc ts ob
    assume "db_quality_block (TorrentFlags e) (quality_filter a) = Inr ft"
      and "user_block e (user a) = Inr u"
      and "db_category_block e (category a) = Inr (m, sb, mc, sc)"
      and "db_term_filters (term_arg a) = Inr ts"
      and "q = \<lparr> db_base = (if term_arg a \<noteq> [] then TorrentNameSearch else Torrent),
           db_filters = db_visibility (TorrentFlags e) u (logged_in_user a) (admin a) (rss a)
                          (same_user_block u (logged_in_user a))
                        @ db_category_filters m sb mc sc @ db_quality_filters ft @ ts,
           db_joins = (if class_of (if rss a then Torrent_id else col) \<noteq> Torrent
                       then [class_of (if rss a then Torrent_id else col)] else []),
           db_order_by = ob,
           db_paging = (if rss a then Limit (per_page a)
                        else Paginate_faste (page a) (per_page a) 5) \<rparr>"
    then show ?thesis
      by (intro exI [of _ u] exI [of _ m] exI [of _ sb] exI [of _ mc] exI [of _ sc]
            exI [of _ ft] exI [of _ ts]) simp
  qed
next
  fix F t u li is_admin is_rss ft
  show "list_all (es_holds (es_doc F t))
        (es_visibility u li is_admin is_rss (same_user_block u li))
      = list_all (sql_holds ft t)
          (db_visibility F u li is_admin is_rss (same_user_block u li))"
    by (auto simp: es_visibility_def db_visibility_def es_doc_fields sql_flag_filters
          simp del: sql_holds.simps(1) split: option.splits)
qed

theorem visibility_equivalence_witness:
  "map_sum id es_filters (search_elastic example_env member_args)
     = Inr (es_visibility None (Some example_user) False False
              (same_user_block None (Some example_user)))
   \<and> map_sum id db_filters (search_db example_env member_args)
     = Inr (db_visibility example_flags None (Some example_user) False False
              (same_user_block None (Some example_user)))
   \<and> list_all (es_holds (es_doc example_flags example_torrent))
       (es_visibility None (Some example_user) False False
          (same_user_block None (Some example_user)))
   \<and> list_all (sql_holds (\<lambda>item t. True) example_torrent)
       (db_visibility example_flags None (Some example_user) False False
          (same_user_block None (Some example_user)))"
proof -
  have f1: "es_visibility None (Some example_user) False False
              (same_user_block None (Some example_user))
            = [Term ''deleted'' (EsBool False),
               Bool_filter [Or (Term ''hidden'' (EsBool False)) (Term ''uploader_id'' (EsInt 7))]]"
    by code_simp
  have f2: "db_visibility example_flags None (Some example_user) False False
              (same_user_block None (Some example_user))
            = [Flags_and_is 32 False, Sql_or (Flags_and_is 2 False) (Uploader_id_eq 7)]"
    by code_simp
  have v: "list_all (sql_holds (\<lambda>item t. True) example_torrent)
     (db_visibility example_flags None (Some example_user) False False
        (same_user_block None (Some example_user)))"
    by code_simp
  note eq = visibility_equivalence [of example_env member_args, THEN conjunct2, THEN conjunct2,
      rule_format, of example_flags example_torrent None "Some example_user" False False
        "\<lambda>item t. True"]
  from v have w: "list_all (es_holds (es_doc example_flags example_torrent))
       (es_visibility None (Some example_user) False False
          (same_user_block None (Some example_user)))"
    unfolding eq .
  have "map_sum id es_filters (search_elastic example_env member_args)
     = Inr (es_visibility None (Some example_user) False False
              (same_user_block None (Some example_user)))"
    unfolding f1 search_elastic_member_args by simp
  moreover have "map_sum id db_filters (search_db example_env member_args)
     = Inr (db_visibility example_flags None (Some example_user) False False
              (same_user_block None (Some example_user)))"
    unfolding f2 search_db_member_args by simp
  ultimately show ?thesis
    using v w by (intro conjI)
qed

text \<open>
  Claim C4. In the user view (a viewed user is given and found) without admin rights,
  both functions filter on the uploader and on \<open>deleted = false\<close>; they add
  \<open>hidden = false\<close> and \<open>anonymous = false\<close> unless the logged-in user is the viewed
  user and the request is not RSS. So the owner outside RSS is shown the own hidden and
  anonymous records, and every other viewer, and every RSS request, is not. The first two
  parts give the filters of the compiled queries, the last two the records they select.
\<close>

theorem profile_view_filters:
  assumes "user a = Some n" and "n \<noteq> 0" and "User_by_id e n = Some r" and "user_id r \<noteq> 0"
    and "\<not> admin a"
  shows
    "(\<forall>s. search_elastic e a = Inr s \<longrightarrow>
        (\<exists>m sb mc sc qn.
           es_category_block e (category a) = Inr (m, sb, mc, sc)
         \<and> es_quality_block (quality_filter a) = Inr qn
         \<and> es_filters s =
             [Term ''uploader_id'' (EsInt (user_id r)), Term ''deleted'' (EsBool False)]
             @ (if map_option user_id (logged_in_user a) = Some (user_id r) \<and> \<not> rss a then []
                else [Term ''hidden'' (EsBool False), Term ''anonymous'' (EsBool False)])
             @ es_category_filters m sb mc sc @ es_quality_filters qn))
   \<and> (\<forall>q. search_db e a = Inr q \<longrightarrow>
        (\<exists>m sb mc sc ft ts.
           db_category_block e (category a) = Inr (m, sb, mc, sc)
         \<and> db_quality_block (TorrentFlags e) (quality_filter a) = Inr ft
         \<and> db_term_filters (term_arg a) = Inr ts
         \<and> db_filters q =
             [Uploader_id_eq (user_id r), Flags_and_is (DELETED (TorrentFlags e)) False]
             @ (if map_option user_id (logged_in_user a) = Some (user_id r) \<and> \<not> rss a then []
                else [Flags_and_is (HIDDEN (TorrentFlags e) OR ANONYMOUS (TorrentFlags e)) False])
             @ db_category_filters m sb mc sc @ db_quality_filters ft @ ts))
   \<and> (\<forall>F t. list_all (es_holds (es_doc F t))
              (es_visibility (Some (user_id r)) (logged_in_user a) (admin a) (rss a)
                 (same_user_block (Some (user_id r)) (logged_in_user a)))
            = (uploader_id t = Some (user_id r) \<and> \<not> is_deleted F t
               \<and> (map_option user_id (logged_in_user a) = Some (user_id r) \<and> \<not> rss a
                  \<or> \<not> is_hidden F t \<and> \<not> is_anonymous F t)))
   \<and> (\<forall>F ft t. list_all (sql_holds ft t)
              (db_visibility F (Some (user_id r)) (logged_in_user a) (admin a) (rss a)
                 (same_user_block (Some (user_id r)) (logged_in_user a)))
            = (uploader_id t = Some (user_id r) \<and> \<not> is_deleted F t
               \<and> (map_option user_id (logged_in_user a) = Some (user_id r) \<and> \<not> rss a
                  \<or> \<not> is_hidden F t \<and> \<not> is_anonymous F t)))"
proof -
  let ?u = "Some (user_id r)"
  let ?owner = "map_option user_id (logged_in_user a) = Some (user_id r)"
  have ub: "user_block e (user a) = Inr ?u"
    using assms(1-3) by (rule user_block_profile)
  have su: "same_user_block ?u (logged_in_user a) = ?owner"
    by (auto simp: same_user_block_def split: option.splits)
  have tr: "truthy ?u"
    using assms(4) by (simp add: truthy_def)
  have ves: "es_visibility ?u (logged_in_user a) (admin a) (rss a)
               (same_user_block ?u (logged_in_user a))
             = [Term ''uploader_id'' (EsInt (user_id r)), Term ''deleted'' (EsBool False)]
               @ (if ?owner \<and> \<not> rss a then []
                  else [Term ''hidden'' (EsBool False), Term ''anonymous'' (EsBool False)])"
    using tr assms(5) by (simp add: es_visibility_def su)
  have vdb: "\<And>F. db_visibility F ?u (logged_in_user a) (admin a) (rss a)
               (same_user_block ?u (logged_in_user a))
             = [Uploader_id_eq (user_id r), Flags_and_is (DELETED F) False]
               @ (if ?owner \<and> \<not> rss a then []
                  else [Flags_and_is (HIDDEN F OR ANONYMOUS F) False])"
    using tr assms(5) by (simp add: db_visibility_def su)
  have A: "\<forall>s. search_elastic e a = Inr s \<longrightarrow>
        (\<exists>m sb mc sc qn.
           es_category_block e (category a) = Inr (m, sb, mc, sc)
         \<and> es_quality_block (quality_filter a) = Inr qn
         \<and> es_filters s =
             [Term ''uploader_id'' (EsInt (user_id r)), Term ''deleted'' (EsBool False)]
             @ (if ?owner \<and> \<not> rss a then []
                else [Term ''hidden'' (EsBool False), Term ''anonymous'' (EsBool False)])
             @ es_category_filters m sb mc sc @ es_quality_filters qn)"
  proof (intro allI impI)
    fix s assume "search_elastic e a = Inr s"
    then show "\<exists>m sb mc sc qn.
           es_category_block e (category a) = Inr (m, sb, mc, sc)
         \<and> es_quality_block (quality_filter a) = Inr qn
         \<and> es_filters s =
             [Term ''uploader_id'' (EsInt (user_id r)), Term ''deleted'' (EsBool False)]
             @ (if ?owner \<and> \<not> rss a then []
                else [Term ''hidden'' (EsBool False), Term ''anonymous'' (EsBool False)])
             @ es_category_filters m sb mc sc @ es_quality_filters qn"
      by (rule search_elastic_InrD) (use ub ves in auto)
  qed
  have B: "\<forall>q. search_db e a = Inr q \<longrightarrow>
        (\<exists>m sb mc sc ft ts.
           db_category_block e (category a) = Inr (m, sb, mc, sc)
         \<and> db_quality_block (TorrentFlags e) (quality_filter a) = Inr ft
         \<and> db_term_filters (term_arg a) = Inr ts
         \<and> db_filters q =
             [Uploader_id_eq (user_id r), Flags_and_is (DELETED (TorrentFlags e)) False]
             @ (if ?owner \<and> \<not> rss a then []
                else [Flags_and_is (HIDDEN (TorrentFlags e) OR ANONYMOUS (TorrentFlags e)) False])
             @ db_category_filters m sb mc sc @ db_quality_filters ft @ ts)"
  proof (intro allI impI)
    fix q assume "search_db e a = Inr q"
    then show "\<exists>m sb mc sc ft ts.
           db_category_block e (category a) = Inr (m, sb, mc, sc)
         \<and> db_quality_block (TorrentFlags e) (quality_filter a) = Inr ft
         \<and> db_term_filters (term_arg a) = Inr ts
         \<and> db_filters q =
             [Uploader_id_eq (user_id r), Flags_and_is (DELETED (TorrentFlags e)) False]
             @ (if ?owner \<and> \<not> rss a then []
                else [Flags_and_is (HIDDEN (TorrentFlags e) OR ANONYMOUS (TorrentFlags e)) False])
             @ db_category_filters m sb mc sc @ db_quality_filters ft @ ts"
      by (rule search_db_InrD) (use ub vdb in auto)
  qed
  have C: "\<forall>F t. list_all (es_holds (es_doc F t))
              (es_visibility ?u (logged_in_user a) (admin a) (rss a)
                 (same_user_block ?u (logged_in_user a)))
            = (uploader_id t = Some (user_id r) \<and> \<not> is_deleted F t
               \<and> (?owner \<and> \<not> rss a \<or> \<not> is_hidden F t \<and> \<not> is_anonymous F t))"
    unfolding ves by (auto simp: es_doc_fields)
  have D: "\<forall>F ft t. list_all (sql_holds ft t)
              (db_visibility F ?u (logged_in_user a) (admin a) (rss a)
                 (same_user_block ?u (logged_in_user a)))
            = (uploader_id t = Some (user_id r) \<and> \<not> is_deleted F t
               \<and> (?owner \<and> \<not> rss a \<or> \<not> is_hidden F t \<and> \<not> is_anonymous F t))"
    unfolding vdb by (auto simp: sql_flag_filters simp del: sql_holds.simps(1))
  from A B C D show ?thesis by blast
qed

theorem profile_view_filters_witness:
  "user owner_args = Some 7
   \<and> User_by_id example_env 7 = Some example_user
   \<and> user_id example_user \<noteq> 0
   \<and> \<not> admin owner_args
   \<and> map_sum id es_filters (search_elastic example_env owner_args)
       = Inr [Term ''uploader_id'' (EsInt 7), Term ''deleted'' (EsBool False)]
   \<and> map_sum id db_filters (search_db example_env owner_args)
       = Inr [Uploader_id_eq 7, Flags_and_is 32 False]
   \<and> is_hidden example_flags example_torrent
   \<and> list_all (es_holds (es_doc example_flags example_torrent))
        (es_visibility (Some 7) (Some example_user) False False
           (same_user_block (Some 7) (Some example_user)))
   \<and> list_all (sql_holds (\<lambda>item t. True) example_torrent)
        (db_visibility example_flags (Some 7) (Some example_user) False False
           (same_user_block (Some 7) (Some example_user)))"
proof -
  have h1: "user owner_args = Some 7" and h2: "(7::int) \<noteq> 0"
    and h3: "User_by_id example_env 7 = Some example_user"
    and h4: "user_id example_user \<noteq> 0" and h5: "\<not> admin owner_args"
    by (simp_all add: owner_args_def default_args_def example_env_def example_user_def)
  have es: "map_sum id es_filters (search_elastic example_env owner_args)
              = Inr [Term ''uploader_id'' (EsInt 7), Term ''deleted'' (EsBool False)]"
    by (simp add: search_elastic_owner_args)
  have db: "map_sum id db_filters (search_db example_env owner_args)
              = Inr [Uploader_id_eq 7, Flags_and_is 32 False]"
    by (simp add: search_db_owner_args)
  have hid: "is_hidden example_flags example_torrent"
    by (simp add: is_hidden_def example_flags_def example_torrent_def)
  have v1: "list_all (es_holds (es_doc example_flags example_torrent))
        (es_visibility (Some 7) (Some example_user) False False
           (same_user_block (Some 7) (Some example_user)))"
    by code_simp
  have v2: "list_all (sql_holds (\<lambda>item t. True) example_torrent)
        (db_visibility example_flags (Some 7) (Some example_user) False False
           (same_user_block (Some 7) (Some example_user)))"
    by code_simp
  show ?thesis
    using profile_view_filters [OF h1 h2 h3 h4 h5] h1 h3 h4 h5 es db hid v1 v2
    by simp
qed

text \<open>
  Claim C5. In the general view (no viewed user) without admin rights, both functions
  require \<open>deleted = false\<close>; with a logged-in user and outside RSS the second filter is
  the disjunction of \<open>hidden = false\<close> and \<open>uploader = logged-in user\<close>, otherwise it is
  \<open>hidden = false\<close> alone. The first two parts give the filters of the compiled queries,
  the last two the records they select.
\<close>

theorem general_view_filters:
  assumes "\<not> truthy (user a)" and "\<not> admin a"
  shows
    "(\<forall>s. search_elastic e a = Inr s \<longrightarrow>
        (\<exists>m sb mc sc qn.
           es_category_block e (category a) = Inr (m, sb, mc, sc)
         \<and> es_quality_block (quality_filter a) = Inr qn
         \<and> es_filters s =
             [Term ''deleted'' (EsBool False)]
             @ (case logged_in_user a of
                  Some l \<Rightarrow>
                    if \<not> rss a then
                      [Bool_filter [Or (Term ''hidden'' (EsBool False))
                                       (Term ''uploader_id'' (EsInt (user_id l)))]]
                    else [Term ''hidden'' (EsBool False)]
                | None \<Rightarrow> [Term ''hidden'' (EsBool False)])
             @ es_category_filters m sb mc sc @ es_quality_filters qn))
   \<and> (\<forall>q. search_db e a = Inr q \<longrightarrow>
        (\<exists>m sb mc sc ft ts.
           db_category_block e (category a) = Inr (m, sb, mc, sc)
         \<and> db_quality_block (TorrentFlags e) (quality_filter a) = Inr ft
         \<and> db_term_filters (term_arg a) = Inr ts
         \<and> db_filters q =
             [Flags_and_is (DELETED (TorrentFlags e)) False]
             @ (case logged_in_user a of
                  Some l \<Rightarrow>
                    if \<not> rss a then
                      [Sql_or (Flags_and_is (HIDDEN (TorrentFlags e)) False)
                              (Uploader_id_eq (user_id l))]
                    else [Flags_and_is (HIDDEN (TorrentFlags e)) False]
                | None \<Rightarrow> [Flags_and_is (HIDDEN (TorrentFlags e)) False])
             @ db_category_filters m sb mc sc @ db_quality_filters ft @ ts))
   \<and> (\<forall>F t. list_all (es_holds (es_doc F t))
              (es_visibility (user a) (logged_in_user a) (admin a) (rss a)
                 (same_user_block (user a) (logged_in_user a)))
            = (\<not> is_deleted F t
               \<and> (case logged_in_user a of
                    Some l \<Rightarrow>
                      if \<not> rss a then \<not> is_hidden F t \<or> uploader_id t = Some (user_id l)
                      else \<not> is_hidden F t
                  | None \<Rightarrow> \<not> is_hidden F t)))
   \<and> (\<forall>F ft t. list_all (sql_holds ft t)
              (db_visibility F (user a) (logged_in_user a) (admin a) (rss a)
                 (same_user_block (user a) (logged_in_user a)))
            = (\<not> is_deleted F t
               \<and> (case logged_in_user a of
                    Some l \<Rightarrow>
                      if \<not> rss a then \<not> is_hidden F t \<or> uploader_id t = Some (user_id l)
                      else \<not> is_hidden F t
                  | None \<Rightarrow> \<not> is_hidden F t)))"
proof -
  have ub: "user_block e (user a) = Inr (user a)"
    using assms(1) by (rule user_block_general)
  have ves: "\<And>su. es_visibility (user a) (logged_in_user a) (admin a) (rss a) su
             = [Term ''deleted'' (EsBool False)]
               @ (case logged_in_user a of
                    Some l \<Rightarrow>
                      if \<not> rss a then
                        [Bool_filter [Or (Term ''hidden'' (EsBool False))
                                         (Term ''uploader_id'' (EsInt (user_id l)))]]
                      else [Term ''hidden'' (EsBool False)]
                  | None \<Rightarrow> [Term ''hidden'' (EsBool False)])"
    using assms by (simp add: es_visibility_def)
  have vdb: "\<And>F su. db_visibility F (user a) (logged_in_user a) (admin a) (rss a) su
             = [Flags_and_is (DELETED F) False]
               @ (case logged_in_user a of
                    Some l \<Rightarrow>
                      if \<not> rss a then
                        [Sql_or (Flags_and_is (HIDDEN F) False) (Uploader_id_eq (user_id l))]
                      else [Flags_and_is (HIDDEN F) False]
                  | None \<Rightarrow> [Flags_and_is (HIDDEN F) False])"
    using assms by (simp add: db_visibility_def)
  have A: "\<forall>s. search_elastic e a = Inr s \<longrightarrow>
        (\<exists>m sb mc sc qn.
           es_category_block e (category a) = Inr (m, sb, mc, sc)
         \<and> es_quality_block (quality_filter a) = Inr qn
         \<and> es_filters s =
             [Term ''deleted'' (EsBool False)]
             @ (case logged_in_user a of
                  Some l \<Rightarrow>
                    if \<not> rss a then
                      [Bool_filter [Or (Term ''hidden'' (EsBool False))
                                       (Term ''uploader_id'' (EsInt (user_id l)))]]
                    else [Term ''hidden'' (EsBool False)]
                | None \<Rightarrow> [Term ''hidden'' (EsBool False)])
             @ es_category_filters m sb mc sc @ es_quality_filters qn)"
  proof (intro allI impI)
    fix s assume "search_elastic e a = Inr s"
    then show "\<exists>m sb mc sc qn.
           es_category_block e (category a) = Inr (m, sb, mc, sc)
         \<and> es_quality_block (quality_filter a) = Inr qn
         \<and> es_filters s =
             [Term ''deleted'' (EsBool False)]
             @ (case logged_in_user a of
                  Some l \<Rightarrow>
                    if \<not> rss a then
                      [Bool_filter [Or (Term ''hidden'' (EsBool False))
                                       (Term ''uploader_id'' (EsInt (user_id l)))]]
                    else [Term ''hidden'' (EsBool False)]
                | None \<Rightarrow> [Term ''hidden'' (EsBool False)])
             @ es_category_filters m sb mc sc @ es_quality_filters qn"
      by (rule search_elastic_InrD) (use ub ves in auto)
  qed
  have B: "\<forall>q. search_db e a = Inr q \<longrightarrow>
        (\<exists>m sb mc sc ft ts.
           db_category_block e (category a) = Inr (m, sb, mc, sc)
         \<and> db_quality_block (TorrentFlags e) (quality_filter a) = Inr ft
         \<and> db_term_filters (term_arg a) = Inr ts
         \<and> db_filters q =
             [Flags_and_is (DELETED (TorrentFlags e)) False]
             @ (case logged_in_user a of
                  Some l \<Rightarrow>
                    if \<not> rss a then
                      [Sql_or (Flags_and_is (HIDDEN (TorrentFlags e)) False)
                              (Uploader_id_eq (user_id l))]
                    else [Flags_and_is (HIDDEN (TorrentFlags e)) False]
                | None \<Rightarrow> [Flags_and_is (HIDDEN (TorrentFlags e)) False])
             @ db_category_filters m sb mc sc @ db_quality_filters ft @ ts)"
  proof (intro allI impI)
    fix q assume "search_db e a = Inr q"
    then show "\<exists>m sb mc sc ft ts.
           db_category_block e (category a) = Inr (m, sb, mc, sc)
         \<and> db_quality_block (TorrentFlags e) (quality_filter a) = Inr ft
         \<and> db_term_filters (term_arg a) = Inr ts
         \<and> db_filters q =
             [Flags_and_is (DELETED (TorrentFlags e)) False]
             @ (case logged_in_user a of
                  Some l \<Rightarrow>
                    if \<not> rss a then
                      [Sql_or (Flags_and_is (HIDDEN (TorrentFlags e)) False)
                              (Uploader_id_eq (user_id l))]
                    else [Flags_and_is (HIDDEN (TorrentFlags e)) False]
                | None \<Rightarrow> [Flags_and_is (HIDDEN (TorrentFlags e)) False])
             @ db_category_filters m sb mc sc @ db_quality_filters ft @ ts"
      by (rule search_db_InrD) (use ub vdb in auto)
  qed
  have C: "\<forall>F t. list_all (es_holds (es_doc F t))
              (es_visibility (user a) (logged_in_user a) (admin a) (rss a)
                 (same_user_block (user a) (logged_in_user a)))
            = (\<not> is_deleted F t
               \<and> (case logged_in_user a of
                    Some l \<Rightarrow>
                      if \<not> rss a then \<not> is_hidden F t \<or> uploader_id t = Some (user_id l)
                      else \<not> is_hidden F t
                  | None \<Rightarrow> \<not> is_hidden F t))"
    unfolding ves by (auto simp: es_doc_fields split: option.splits)
  have D: "\<forall>F ft t. list_all (sql_holds ft t)
              (db_visibility F (user a) (logged_in_user a) (admin a) (rss a)
                 (same_user_block (user a) (logged_in_user a)))
            = (\<not> is_deleted F t
               \<and> (case logged_in_user a of
                    Some l \<Rightarrow>
                      if \<not> rss a then \<not> is_hidden F t \<or> uploader_id t = Some (user_id l)
                      else \<not> is_hidden F t
                  | None \<Rightarrow> \<not> is_hidden F t))"
    unfolding vdb
    by (auto simp: sql_flag_filters simp del: sql_holds.simps(1) split: option.splits)
  from A B C D show ?thesis by blast
qed

theorem general_view_filters_witness:
  "\<not> truthy (user member_args)
   \<and> \<not> admin member_args
   \<and> map_sum id es_filters (search_elastic example_env member_args)
       = Inr [Term ''deleted'' (EsBool False),
              Bool_filter [Or (Term ''hidden'' (EsBool False))
                              (Term ''uploader_id'' (EsInt 7))]]
   \<and> map_sum id db_filters (search_db example_env member_args)
       = Inr [Flags_and_is 32 False, Sql_or (Flags_and_is 2 False) (Uploader_id_eq 7)]
   \<and> is_hidden example_flags example_torrent
   \<and> list_all (es_holds (es_doc example_flags example_torrent))
        (es_visibility None (Some example_user) False False
           (same_user_block None (Some example_user)))
   \<and> list_all (sql_holds (\<lambda>item t. True) example_torrent)
        (db_visibility example_flags None (Some example_user) False False
           (same_user_block None (Some example_user)))"
proof -
  have h1: "\<not> truthy (user member_args)" and h2: "\<not> admin member_args"
    by (simp_all add: member_args_def default_args_def truthy_def)
  have es: "map_sum id es_filters (search_elastic example_env member_args)
       = Inr [Term ''deleted'' (EsBool False),
              Bool_filter [Or (Term ''hidden'' (EsBool False))
                              (Term ''uploader_id'' (EsInt 7))]]"
    by (simp add: search_elastic_member_args)
  have db: "map_sum id db_filters (search_db example_env member_args)
       = Inr [Flags_and_is 32 False, Sql_or (Flags_and_is 2 False) (Uploader_id_eq 7)]"
    by (simp add: search_db_member_args)
  have hid: "is_hidden example_flags example_torrent"
    by (simp add: is_hidden_def example_flags_def example_torrent_def)
  have v1: "list_all (es_holds (es_doc example_flags example_torrent))
        (es_visibility None (Some example_user) False False
           (same_user_block None (Some example_user)))"
    by code_simp
  have v2: "list_all (sql_holds (\<lambda>item t. True) example_torrent)
        (db_visibility example_flags None (Some example_user) False False
           (same_user_block None (Some example_user)))"
    by code_simp
  show ?thesis
    using general_view_filters [OF h1 h2, of example_env] h1 h2 es db hid v1 v2
    by simp
qed

section \<open>Unknown categories\<close>

text \<open>
  Claim C3. Let the category parameter match the pattern with a positive main id, and
  let the lookup that applies (of the pair when the sub id is positive, of the main id
  otherwise) find nothing. Then the category step of \<^verbatim>\<open>search_elastic\<close> is
  \<^verbatim>\<open>abort(400)\<close> and that function compiles no query. In \<^verbatim>\<open>search_db\<close> the test after
  the lookups is \<^verbatim>\<open>if not category\<close>, on the request's string, which is not empty
  there: the step passes with no category found, and the function returns what it
  returns for the same request without a category.
\<close>

theorem unknown_category:
  assumes m: "cat_match e (category a) = Some (g1, g2)"
    and pos: "0 < int_of_decimals e g1"
    and unknown:
      "if 0 < int_of_decimals e g2
       then SubCategory_by_category_ids e (int_of_decimals e g1) (int_of_decimals e g2) = None
       else MainCategory_by_id e (int_of_decimals e g1) = None"
  shows "es_category_block e (category a) = Inl (Abort 400)
       \<and> (\<forall>s. search_elastic e a \<noteq> Inr s)
       \<and> db_category_block e (category a) = Inr (int_of_decimals e g1, int_of_decimals e g2, None, None)
       \<and> search_db e a = search_db e (a\<lparr>category := []\<rparr>)"
proof -
  have ne: "category a \<noteq> []"
    using m by (rule cat_match_nonempty)
  have es: "es_category_block e (category a) = Inl (Abort 400)"
    using m pos unknown ne by (simp add: es_category_block_def Let_def split: if_splits)
  have no: "\<forall>s. search_elastic e a \<noteq> Inr s"
  proof (intro allI notI)
    fix s assume "search_elastic e a = Inr s"
    then obtain r where "es_category_block e (category a) = Inr r"
      by (rule search_elastic_InrD) simp
    with es show False by simp
  qed
  have db: "db_category_block e (category a)
              = Inr (int_of_decimals e g1, int_of_decimals e g2, None, None)"
    using m pos unknown ne by (simp add: db_category_block_def Let_def split: if_splits)
  have db0: "db_category_block e [] = Inr (0, 0, None, None)"
    by (simp add: db_category_block_def)
  have same: "search_db e a = search_db e (a\<lparr>category := []\<rparr>)"
    by (simp add: search_db_def db db0 db_category_filters_def Let_def
          cong: sum.case_cong option.case_cong)
  from es no db same show ?thesis by (intro conjI)
qed

theorem unknown_category_witness:
  "cat_match example_env (ustr ''3_7'') = Some (ustr ''3'', ustr ''7'')
   \<and> SubCategory_by_category_ids example_env 3 7 = None
   \<and> search_elastic example_env (default_args\<lparr>category := ustr ''3_7''\<rparr>) = Inl (Abort 400)
   \<and> search_db example_env (default_args\<lparr>category := ustr ''3_7''\<rparr>) =
       Inr \<lparr> db_base = Torrent,
             db_filters = [Flags_and_is 32 False, Flags_and_is 2 False],
             db_joins = [], db_order_by = Desc Torrent_id, db_paging = Paginate_faste 1 75 5 \<rparr>
   \<and> search_db example_env (default_args\<lparr>category := ustr ''3_7''\<rparr>)
       = search_db example_env (default_args\<lparr>category := []\<rparr>)"
proof -
  let ?a = "default_args\<lparr>category := ustr ''3_7''\<rparr>"
  have m: "cat_match example_env (category ?a) = Some (ustr ''3'', ustr ''7'')"
    by (simp add: cat_match_3_7)
  have pos: "0 < int_of_decimals example_env (ustr ''3'')"
    by (simp add: cat_match_3_7)
  have none: "SubCategory_by_category_ids example_env 3 7 = None"
    by (simp add: example_env_def)
  have unknown:
    "if 0 < int_of_decimals example_env (ustr ''7'')
     then SubCategory_by_category_ids example_env (int_of_decimals example_env (ustr ''3''))
            (int_of_decimals example_env (ustr ''7'')) = None
     else MainCategory_by_id example_env (int_of_decimals example_env (ustr ''3'')) = None"
    by (simp add: cat_match_3_7 none)
  from unknown_category [OF m pos unknown, THEN conjunct2, THEN conjunct2, THEN conjunct2]
  have "search_db example_env ?a = search_db example_env (?a\<lparr>category := []\<rparr>)" .
  then have same: "search_db example_env ?a = search_db example_env (default_args\<lparr>category := []\<rparr>)"
    by simp
  show ?thesis
    using same none
    by (simp add: cat_match_3_7 search_elastic_unknown_category search_db_unknown_category)
qed

section \<open>The window of the index query\<close>

text \<open>
  The window of the claim at \<open>large_args\<close>, and the slice the function computes there:
  \<^verbatim>\<open>float\<close> rounds \<open>2^53 + 1\<close> to \<open>2^53\<close>.
\<close>

theorem index_pagination_counterexample:
  "\<not> rss large_args
   \<and> search_elastic example_env large_args =
       Inr \<lparr> es_index = Some ''nyaa'', es_query = None,
             es_filters = [Term ''deleted'' (EsBool False), Term ''hidden'' (EsBool False)],
             es_sort = ''-id'', es_slice = (9007199254740991, 9007199254740992),
             es_highlight = False \<rparr>
   \<and> (let effective_page =
             min (page large_args)
               \<lceil>rat_of_int (max_search_results large_args) / rat_of_int (per_page large_args)\<rceil>
       in ((effective_page - 1) * per_page large_args,
           min (max_search_results large_args) (effective_page * per_page large_args)))
      = (9007199254740992, 9007199254740993)"
  by code_simp

text \<open>
  Claim C6. The slice of a compiled index query is what lines 166-172 compute, and the
  function returns whenever the earlier steps and this one do. For an RSS request the
  slice is \<open>[0, per_page)\<close>; a negative \<open>per_page\<close> is a negative slice bound, which the
  search refuses with \<^verbatim>\<open>ValueError\<close>. For any other request with \<open>per_page\<close> and
  \<open>max_search_results\<close> from \<open>1\<close> to below \<open>2^53\<close>, where the floating-point quotient has
  the ceiling of the exact one, the slice runs from \<open>(effective_page - 1) * per_page\<close> to
  \<open>min max_search_results (effective_page * per_page)\<close> with
  \<open>effective_page = min page (ceiling (max_search_results / per_page))\<close> when \<open>page\<close> is
  at least \<open>1\<close>, and a smaller \<open>page\<close> gives a negative bound and \<^verbatim>\<open>ValueError\<close>.
  \<open>per_page = 0\<close> raises \<^verbatim>\<open>ZeroDivisionError\<close>. With \<open>max_search_results = 1000\<close> and
  \<open>per_page = 75\<close>, page \<open>50\<close> and page \<open>14\<close> both give the slice from \<open>975\<close> to \<open>1000\<close>.
\<close>

theorem index_pagination:
  "(\<forall>s. search_elastic e a = Inr s \<longrightarrow>
      es_slice_block (rss a) (page a) (per_page a) (max_search_results a) = Inr (es_slice s))
 \<and> (\<forall>srt qn m sb mc sc u.
        es_sort_block (sort_arg a) (order_arg a) (rss a) = Inr srt
      \<and> es_quality_block (quality_filter a) = Inr qn
      \<and> es_category_block e (category a) = Inr (m, sb, mc, sc)
      \<and> user_block e (user a) = Inr u
      \<longrightarrow> (\<forall>sl. es_slice_block (rss a) (page a) (per_page a) (max_search_results a) = Inr sl
              \<longrightarrow> (\<exists>s. search_elastic e a = Inr s \<and> es_slice s = sl))
        \<and> (\<forall>err. es_slice_block (rss a) (page a) (per_page a) (max_search_results a) = Inl err
              \<longrightarrow> search_elastic e a = Inl err))
 \<and> (rss a \<longrightarrow>
      es_slice_block (rss a) (page a) (per_page a) (max_search_results a)
        = (if per_page a < 0 then Inl ValueError else Inr (0, per_page a)))
 \<and> (\<not> rss a \<and> 1 \<le> per_page a \<and> per_page a < 2 ^ 53
      \<and> 1 \<le> max_search_results a \<and> max_search_results a < 2 ^ 53 \<longrightarrow>
      es_slice_block (rss a) (page a) (per_page a) (max_search_results a)
        = (if page a < 1 then Inl ValueError
           else
             Inr (let effective_page =
                        min (page a)
                          \<lceil>rat_of_int (max_search_results a) / rat_of_int (per_page a)\<rceil>
                  in ((effective_page - 1) * per_page a,
                      min (max_search_results a) (effective_page * per_page a)))))
 \<and> (\<not> rss a \<and> per_page a = 0 \<and> 0 \<le> max_search_results a \<and> max_search_results a < 2 ^ 53 \<longrightarrow>
      es_slice_block (rss a) (page a) (per_page a) (max_search_results a)
        = Inl ZeroDivisionError)
 \<and> (\<not> rss a \<and> max_search_results a = 1000 \<and> per_page a = 75 \<and> page a \<in> {14, 50} \<longrightarrow>
      es_slice_block (rss a) (page a) (per_page a) (max_search_results a) = Inr (975, 1000))"
proof (intro conjI allI impI)
  fix s assume "search_elastic e a = Inr s"
  then show "es_slice_block (rss a) (page a) (per_page a) (max_search_results a)
               = Inr (es_slice s)"
    by (rule search_elastic_InrD) simp
next
  fix srt qn m sb mc sc u sl
  assume "es_sort_block (sort_arg a) (order_arg a) (rss a) = Inr srt
      \<and> es_quality_block (quality_filter a) = Inr qn
      \<and> es_category_block e (category a) = Inr (m, sb, mc, sc)
      \<and> user_block e (user a) = Inr u"
    and "es_slice_block (rss a) (page a) (per_page a) (max_search_results a) = Inr sl"
  then show "\<exists>s. search_elastic e a = Inr s \<and> es_slice s = sl"
    by (simp add: search_elastic_InrI)
next
  fix srt qn m sb mc sc u err
  assume "es_sort_block (sort_arg a) (order_arg a) (rss a) = Inr srt
      \<and> es_quality_block (quality_filter a) = Inr qn
      \<and> es_category_block e (category a) = Inr (m, sb, mc, sc)
      \<and> user_block e (user a) = Inr u"
    and "es_slice_block (rss a) (page a) (per_page a) (max_search_results a) = Inl err"
  then show "search_elastic e a = Inl err"
    by (elim conjE) (rule search_elastic_slice_Inl)
next
  assume "rss a"
  then show "es_slice_block (rss a) (page a) (per_page a) (max_search_results a)
        = (if per_page a < 0 then Inl ValueError else Inr (0, per_page a))"
    by (simp add: es_slice_block_rss)
next
  assume h: "\<not> rss a \<and> 1 \<le> per_page a \<and> per_page a < 2 ^ 53
      \<and> 1 \<le> max_search_results a \<and> max_search_results a < 2 ^ 53"
  show "es_slice_block (rss a) (page a) (per_page a) (max_search_results a)
        = (if page a < 1 then Inl ValueError
           else
             Inr (let effective_page =
                        min (page a)
                          \<lceil>rat_of_int (max_search_results a) / rat_of_int (per_page a)\<rceil>
                  in ((effective_page - 1) * per_page a,
                      min (max_search_results a) (effective_page * per_page a))))"
  proof (cases "page a < 1")
    case True
    then have "page a \<le> 0" by simp
    with h True show ?thesis
      by (simp add: es_slice_block_page_low)
  next
    case False
    then have "1 \<le> page a" by simp
    with h False show ?thesis
      by (simp add: es_slice_block_window Let_def)
  qed
next
  assume "\<not> rss a \<and> per_page a = 0 \<and> 0 \<le> max_search_results a \<and> max_search_results a < 2 ^ 53"
  then show "es_slice_block (rss a) (page a) (per_page a) (max_search_results a)
        = Inl ZeroDivisionError"
    by (simp add: es_slice_block_per_page_0)
next
  assume h: "\<not> rss a \<and> max_search_results a = 1000 \<and> per_page a = 75 \<and> page a \<in> {14, 50}"
  have "es_slice_block False 14 75 1000 = Inr (975, 1000)"
    and "es_slice_block False 50 75 1000 = Inr (975, 1000)"
    by code_simp+
  with h show "es_slice_block (rss a) (page a) (per_page a) (max_search_results a)
                 = Inr (975, 1000)"
    by auto
qed

theorem index_pagination_witness:
  "map_sum id es_slice (search_elastic example_env (default_args\<lparr>page := 50\<rparr>)) = Inr (975, 1000)
   \<and> map_sum id es_slice (search_elastic example_env (default_args\<lparr>page := 14\<rparr>)) = Inr (975, 1000)
   \<and> map_sum id es_slice (search_elastic example_env (default_args\<lparr>rss := True, page := 3\<rparr>))
       = Inr (0, 75)"
proof -
  let ?a1 = "default_args\<lparr>page := 50\<rparr>"
  let ?a2 = "default_args\<lparr>page := 14\<rparr>"
  let ?a3 = "default_args\<lparr>rss := True, page := 3\<rparr>"
  obtain s1 where s1: "search_elastic example_env ?a1 = Inr s1"
    using search_elastic_page_50 by blast
  obtain s2 where s2: "search_elastic example_env ?a2 = Inr s2"
    using search_elastic_page_14 by blast
  obtain s3 where s3: "search_elastic example_env ?a3 = Inr s3"
    using search_elastic_rss_default by blast
  have p1: "\<not> rss ?a1 \<and> max_search_results ?a1 = 1000 \<and> per_page ?a1 = 75 \<and> page ?a1 \<in> {14, 50}"
    and p2: "\<not> rss ?a2 \<and> max_search_results ?a2 = 1000 \<and> per_page ?a2 = 75 \<and> page ?a2 \<in> {14, 50}"
    by (simp_all add: default_args_def)
  note l1 = index_pagination [of example_env ?a1, THEN conjunct1, rule_format, OF s1]
  note l2 = index_pagination [of example_env ?a2, THEN conjunct1, rule_format, OF s2]
  note l3 = index_pagination [of example_env ?a3, THEN conjunct1, rule_format, OF s3]
  note e1 = index_pagination [of example_env ?a1, THEN conjunct2, THEN conjunct2, THEN conjunct2,
      THEN conjunct2, THEN conjunct2, rule_format, OF p1]
  note e2 = index_pagination [of example_env ?a2, THEN conjunct2, THEN conjunct2, THEN conjunct2,
      THEN conjunct2, THEN conjunct2, rule_format, OF p2]
  have r3: "rss ?a3"
    by (simp add: default_args_def)
  note e3 = index_pagination [of example_env ?a3, THEN conjunct2, THEN conjunct2, THEN conjunct1,
      rule_format, OF r3]
  have w1: "es_slice s1 = (975, 1000)"
    using l1 e1 by simp
  have w2: "es_slice s2 = (975, 1000)"
    using l2 e2 by simp
  have "per_page ?a3 = 75"
    by (simp add: default_args_def)
  with l3 e3 have w3: "es_slice s3 = (0, 75)"
    by simp
  show ?thesis
    by (simp add: s1 s2 s3 w1 w2 w3)
qed

section \<open>Text search in the datastore query\<close>

text \<open>
  The term \<^verbatim>\<open>"foo\<close> is not empty, and its quote is never closed: \<^verbatim>\<open>shlex.split\<close>
  raises \<^verbatim>\<open>ValueError\<close>, which \<^verbatim>\<open>search_db\<close> lets through, so there are no tokens and
  no query.
\<close>

theorem datastore_text_search_counterexample:
  "term_arg (default_args\<lparr>term_arg := unclosed_term\<rparr>) \<noteq> []
   \<and> shlex_split unclosed_term = Inl ValueError
   \<and> search_db example_env (default_args\<lparr>term_arg := unclosed_term\<rparr>) = Inl ValueError"
  by code_simp

text \<open>
  Claim C7, for a non-empty term. The first part is the compiled query: its base is the
  full-text relation, the term was split by \<^verbatim>\<open>shlex.split(term, posix=False)\<close>, and the
  full-text predicates of the query are exactly one \<^verbatim>\<open>FullTextSearch\<close> for each item of
  at least 2 characters (code points), in order; they stand in the filter list, so a row
  must pass every one of them besides the other filters. The second part is when the call
  returns: if the earlier steps do, it returns a query when the split and the order step
  return, and raises the \<^verbatim>\<open>ValueError\<close> of the split otherwise; no query is compiled
  from a term that cannot be split. The third part is the split itself: whitespace
  between items is skipped; an item that starts with a quote runs to the next occurrence
  of the same quote, whitespace included, and keeps both quotes; without that
  occurrence the split raises \<^verbatim>\<open>ValueError\<close>; any other item runs up to the next
  whitespace or the end of the term. The last part is the examples: \<open>foo bar\<close> gives the
  predicates for \<open>foo\<close> and \<open>bar\<close>, \<open>a b\<close> gives none, \<^verbatim>\<open>"foo bar" x 'y z'\<close> gives the
  two quoted items, and a single character outside ASCII gives none.
\<close>

theorem datastore_text_search:
  assumes "term_arg a \<noteq> []"
  shows
   "(\<forall>q. search_db e a = Inr q \<longrightarrow>
       (\<exists>items.
           shlex_split (term_arg a) = Inr items
         \<and> db_base q = TorrentNameSearch
         \<and> filter is_fulltext (db_filters q)
             = map FullTextSearch (filter (\<lambda>item. 2 \<le> length item) items)
         \<and> (\<forall>ft t. list_all (sql_holds ft t) (db_filters q)
              = (list_all (sql_holds ft t) (filter (\<lambda>f. \<not> is_fulltext f) (db_filters q))
                 \<and> (\<forall>item\<in>set items. 2 \<le> length item \<longrightarrow> ft item t)))))
  \<and> (\<forall>col ftq u m sb mc sc.
         db_sort_block (sort_arg a) (order_arg a) = Inr col
       \<and> db_quality_block (TorrentFlags e) (quality_filter a) = Inr ftq
       \<and> user_block e (user a) = Inr u
       \<and> db_category_block e (category a) = Inr (m, sb, mc, sc)
       \<longrightarrow> (\<forall>items ob.
               shlex_split (term_arg a) = Inr items
             \<and> db_order_block (if rss a then Torrent_id else col)
                 (if rss a then ''desc'' else order_arg a) = Inr ob
             \<longrightarrow> (\<exists>q. search_db e a = Inr q))
         \<and> (\<forall>err. shlex_split (term_arg a) = Inl err \<longrightarrow> search_db e a = Inl ValueError))
  \<and> (\<forall>err. shlex_split (term_arg a) = Inl err \<longrightarrow>
        err = ValueError \<and> (\<forall>q. search_db e a \<noteq> Inr q))
  \<and> shlex_split [] = Inr []
  \<and> (\<forall>c rest. is_whitespace c \<longrightarrow> shlex_split (c # rest) = shlex_split rest)
  \<and> (\<forall>c body rest. is_quote c \<and> c \<notin> set body \<longrightarrow>
        shlex_split (c # body @ c # rest)
          = map_sum id (\<lambda>items. (c # body @ [c]) # items) (shlex_split rest)
      \<and> shlex_split (c # body) = Inl ValueError)
  \<and> (\<forall>c w. \<not> is_whitespace c \<and> \<not> is_quote c \<and> (\<forall>x\<in>set w. \<not> is_whitespace x) \<longrightarrow>
        shlex_split (c # w) = Inr [c # w]
      \<and> (\<forall>sp rest. is_whitespace sp \<longrightarrow>
            shlex_split (c # w @ sp # rest)
              = map_sum id (\<lambda>items. (c # w) # items) (shlex_split rest)))
  \<and> (\<forall>q. search_db e a = Inr q \<longrightarrow>
        (term_arg a = ustr ''foo bar'' \<longrightarrow>
           filter is_fulltext (db_filters q)
             = [FullTextSearch (ustr ''foo''), FullTextSearch (ustr ''bar'')])
      \<and> (term_arg a = ustr ''a b'' \<longrightarrow> filter is_fulltext (db_filters q) = [])
      \<and> (term_arg a = quoted_term \<longrightarrow>
           filter is_fulltext (db_filters q)
             = [FullTextSearch ([34] @ ustr ''foo bar'' @ [34]),
                FullTextSearch ([39] @ ustr ''y z'' @ [39])])
      \<and> (term_arg a = one_character_term \<longrightarrow> filter is_fulltext (db_filters q) = []))"
proof (intro conjI)
  show "\<forall>q. search_db e a = Inr q \<longrightarrow>
       (\<exists>items.
           shlex_split (term_arg a) = Inr items
         \<and> db_base q = TorrentNameSearch
         \<and> filter is_fulltext (db_filters q)
             = map FullTextSearch (filter (\<lambda>item. 2 \<le> length item) items)
         \<and> (\<forall>ft t. list_all (sql_holds ft t) (db_filters q)
              = (list_all (sql_holds ft t) (filter (\<lambda>f. \<not> is_fulltext f) (db_filters q))
                 \<and> (\<forall>item\<in>set items. 2 \<le> length item \<longrightarrow> ft item t))))"
    using assms by (intro allI impI) (rule db_term_part)
  show "\<forall>col ftq u m sb mc sc.
         db_sort_block (sort_arg a) (order_arg a) = Inr col
       \<and> db_quality_block (TorrentFlags e) (quality_filter a) = Inr ftq
       \<and> user_block e (user a) = Inr u
       \<and> db_category_block e (category a) = Inr (m, sb, mc, sc)
       \<longrightarrow> (\<forall>items ob.
               shlex_split (term_arg a) = Inr items
             \<and> db_order_block (if rss a then Torrent_id else col)
                 (if rss a then ''desc'' else order_arg a) = Inr ob
             \<longrightarrow> (\<exists>q. search_db e a = Inr q))
         \<and> (\<forall>err. shlex_split (term_arg a) = Inl err \<longrightarrow> search_db e a = Inl ValueError)"
  proof (intro allI impI conjI; elim conjE)
    fix col ftq u m sb mc sc items ob
    assume blocks: "db_sort_block (sort_arg a) (order_arg a) = Inr col"
      "db_quality_block (TorrentFlags e) (quality_filter a) = Inr ftq"
      "user_block e (user a) = Inr u"
      "db_category_block e (category a) = Inr (m, sb, mc, sc)"
      and items: "shlex_split (term_arg a) = Inr items"
      and ob: "db_order_block (if rss a then Torrent_id else col)
                 (if rss a then ''desc'' else order_arg a) = Inr ob"
    have "db_term_filters (term_arg a)
            = Inr (map FullTextSearch (filter (\<lambda>item. 2 \<le> length item) items))"
      using assms items by (simp add: db_term_filters_def)
    from search_db_InrI [OF blocks this ob] show "\<exists>q. search_db e a = Inr q"
      by blast
  next
    fix col ftq u m sb mc sc err
    assume blocks: "db_sort_block (sort_arg a) (order_arg a) = Inr col"
      "db_quality_block (TorrentFlags e) (quality_filter a) = Inr ftq"
      "user_block e (user a) = Inr u"
      "db_category_block e (category a) = Inr (m, sb, mc, sc)"
      and err: "shlex_split (term_arg a) = Inl err"
    from err have "err = ValueError"
      by (rule shlex_split_error)
    with err assms have "db_term_filters (term_arg a) = Inl ValueError"
      by (simp add: db_term_filters_def)
    with blocks show "search_db e a = Inl ValueError"
      by (rule search_db_term_Inl)
  qed
  show "\<forall>err. shlex_split (term_arg a) = Inl err \<longrightarrow>
        err = ValueError \<and> (\<forall>q. search_db e a \<noteq> Inr q)"
  proof (intro allI impI conjI notI)
    fix err assume err: "shlex_split (term_arg a) = Inl err"
    then show "err = ValueError"
      by (rule shlex_split_error)
    fix q assume "search_db e a = Inr q"
    then have "db_term_filters (term_arg a) = Inr (filter is_fulltext (db_filters q))"
      by (rule search_db_fulltext)
    with err assms show False
      by (simp add: db_term_filters_def)
  qed
  show "shlex_split [] = Inr []"
    by (simp add: shlex_split_def)
  show "\<forall>c rest. is_whitespace c \<longrightarrow> shlex_split (c # rest) = shlex_split rest"
    by (simp add: shlex_split_whitespace)
  show "\<forall>c body rest. is_quote c \<and> c \<notin> set body \<longrightarrow>
        shlex_split (c # body @ c # rest)
          = map_sum id (\<lambda>items. (c # body @ [c]) # items) (shlex_split rest)
      \<and> shlex_split (c # body) = Inl ValueError"
    by (intro allI impI conjI; elim conjE) (rule shlex_split_quoted; assumption)+
  show "\<forall>c w. \<not> is_whitespace c \<and> \<not> is_quote c \<and> (\<forall>x\<in>set w. \<not> is_whitespace x) \<longrightarrow>
        shlex_split (c # w) = Inr [c # w]
      \<and> (\<forall>sp rest. is_whitespace sp \<longrightarrow>
            shlex_split (c # w @ sp # rest)
              = map_sum id (\<lambda>items. (c # w) # items) (shlex_split rest))"
    by (intro allI impI conjI; elim conjE) (rule shlex_split_word; assumption)+
  show "\<forall>q. search_db e a = Inr q \<longrightarrow>
        (term_arg a = ustr ''foo bar'' \<longrightarrow>
           filter is_fulltext (db_filters q)
             = [FullTextSearch (ustr ''foo''), FullTextSearch (ustr ''bar'')])
      \<and> (term_arg a = ustr ''a b'' \<longrightarrow> filter is_fulltext (db_filters q) = [])
      \<and> (term_arg a = quoted_term \<longrightarrow>
           filter is_fulltext (db_filters q)
             = [FullTextSearch ([34] @ ustr ''foo bar'' @ [34]),
                FullTextSearch ([39] @ ustr ''y z'' @ [39])])
      \<and> (term_arg a = one_character_term \<longrightarrow> filter is_fulltext (db_filters q) = [])"
  proof (intro allI impI conjI)
    fix q assume q: "search_db e a = Inr q"
    note ft = search_db_fulltext [OF q]
    show "filter is_fulltext (db_filters q)
             = [FullTextSearch (ustr ''foo''), FullTextSearch (ustr ''bar'')]"
      if "term_arg a = ustr ''foo bar''"
      using ft unfolding that db_term_filters_examples by simp
    show "filter is_fulltext (db_filters q) = []" if "term_arg a = ustr ''a b''"
      using ft unfolding that db_term_filters_examples by simp
    show "filter is_fulltext (db_filters q)
             = [FullTextSearch ([34] @ ustr ''foo bar'' @ [34]),
                FullTextSearch ([39] @ ustr ''y z'' @ [39])]"
      if "term_arg a = quoted_term"
      using ft unfolding that db_term_filters_examples by simp
    show "filter is_fulltext (db_filters q) = []" if "term_arg a = one_character_term"
      using ft unfolding that db_term_filters_examples by simp
  qed
qed

theorem datastore_text_search_witness:
  "map_sum id (filter is_fulltext \<circ> db_filters)
     (search_db example_env (default_args\<lparr>term_arg := ustr ''foo bar''\<rparr>))
     = Inr [FullTextSearch (ustr ''foo''), FullTextSearch (ustr ''bar'')]
   \<and> map_sum id (filter is_fulltext \<circ> db_filters)
     (search_db example_env (default_args\<lparr>term_arg := ustr ''a b''\<rparr>)) = Inr []
   \<and> map_sum id (filter is_fulltext \<circ> db_filters)
     (search_db example_env (default_args\<lparr>term_arg := quoted_term\<rparr>))
     = Inr [FullTextSearch ([34] @ ustr ''foo bar'' @ [34]),
            FullTextSearch ([39] @ ustr ''y z'' @ [39])]
   \<and> map_sum id (filter is_fulltext \<circ> db_filters)
     (search_db example_env (default_args\<lparr>term_arg := one_character_term\<rparr>)) = Inr []"
proof -
  let ?a1 = "default_args\<lparr>term_arg := ustr ''foo bar''\<rparr>"
  let ?a2 = "default_args\<lparr>term_arg := ustr ''a b''\<rparr>"
  let ?a3 = "default_args\<lparr>term_arg := quoted_term\<rparr>"
  let ?a4 = "default_args\<lparr>term_arg := one_character_term\<rparr>"
  have t: "term_arg ?a1 \<noteq> []" "term_arg ?a2 \<noteq> []" "term_arg ?a3 \<noteq> []" "term_arg ?a4 \<noteq> []"
    by (simp_all add: ustr_def quoted_term_def one_character_term_def)
  have e1: "term_arg ?a1 = ustr ''foo bar''" and e2: "term_arg ?a2 = ustr ''a b''"
    and e3: "term_arg ?a3 = quoted_term" and e4: "term_arg ?a4 = one_character_term"
    by simp_all
  note ex = conjunct2 [THEN conjunct2, THEN conjunct2, THEN conjunct2, THEN conjunct2,
      THEN conjunct2, THEN conjunct2]
  note w1 = datastore_text_search [OF t(1), of example_env, THEN ex, rule_format,
      OF search_db_foo_bar, THEN conjunct1, rule_format, OF e1]
  note w2 = datastore_text_search [OF t(2), of example_env, THEN ex, rule_format,
      OF search_db_a_b, THEN conjunct2, THEN conjunct1, rule_format, OF e2]
  note w3 = datastore_text_search [OF t(3), of example_env, THEN ex, rule_format,
      OF search_db_quoted_term, THEN conjunct2, THEN conjunct2, THEN conjunct1, rule_format, OF e3]
  note w4 = datastore_text_search [OF t(4), of example_env, THEN ex, rule_format,
      OF search_db_one_character_term, THEN conjunct2, THEN conjunct2, THEN conjunct2,
      rule_format, OF e4]
  show ?thesis
    unfolding search_db_foo_bar search_db_a_b search_db_quoted_term search_db_one_character_term
    using w1 w2 w3 w4 by simp
qed

section \<open>The quality filter\<close>

text \<open>
  Claim C8. A compiled query of either function has a quality code among \<open>0\<close>, \<open>1\<close>,
  \<open>2\<close>, \<open>3\<close>, and after the visibility and category filters it holds no quality
  filter for \<open>0\<close>, \<open>remake = false\<close> for \<open>1\<close>, \<open>trusted = true\<close> for \<open>2\<close> and
  \<open>complete = true\<close> for \<open>3\<close> (in the datastore query the flag test with the matching
  mask). Each of the four codes passes the quality step of both functions with that
  filter, and both functions return a query for it whenever their other steps return.
  Any other code is rejected with \<^verbatim>\<open>abort(400)\<close> by both functions, except where
  the sort parameter is one of the five keys only after lowering: the sort lookup runs
  before the quality check, and there both functions end in the uncaught
  \<^verbatim>\<open>KeyError\<close> instead of the rejection. The last part says which records the three
  filters select.
\<close>

theorem quality_filter_resolution:
  "(\<forall>s. search_elastic e a = Inr s \<longrightarrow>
      quality_filter a \<in> {''0'', ''1'', ''2'', ''3''}
    \<and> (\<exists>u m sb mc sc.
          user_block e (user a) = Inr u
        \<and> es_category_block e (category a) = Inr (m, sb, mc, sc)
        \<and> es_filters s =
            es_visibility u (logged_in_user a) (admin a) (rss a)
              (same_user_block u (logged_in_user a))
            @ es_category_filters m sb mc sc
            @ (if quality_filter a = ''0'' then []
               else if quality_filter a = ''1'' then [Term ''remake'' (EsBool False)]
               else if quality_filter a = ''2'' then [Term ''trusted'' (EsBool True)]
               else [Term ''complete'' (EsBool True)])))
 \<and> (\<forall>q. search_db e a = Inr q \<longrightarrow>
      quality_filter a \<in> {''0'', ''1'', ''2'', ''3''}
    \<and> (\<exists>u m sb mc sc ts.
          user_block e (user a) = Inr u
        \<and> db_category_block e (category a) = Inr (m, sb, mc, sc)
        \<and> db_term_filters (term_arg a) = Inr ts
        \<and> db_filters q =
            db_visibility (TorrentFlags e) u (logged_in_user a) (admin a) (rss a)
              (same_user_block u (logged_in_user a))
            @ db_category_filters m sb mc sc
            @ (if quality_filter a = ''0'' then []
               else if quality_filter a = ''1'' then [Flags_and_is (REMAKE (TorrentFlags e)) False]
               else if quality_filter a = ''2'' then [Flags_and_is (TRUSTED (TorrentFlags e)) True]
               else [Flags_and_is (COMPLETE (TorrentFlags e)) True])
            @ ts))
 \<and> (quality_filter a \<in> {''0'', ''1'', ''2'', ''3''} \<longrightarrow>
      (\<exists>n. es_quality_block (quality_filter a) = Inr n
         \<and> es_quality_filters n =
             (if quality_filter a = ''0'' then []
              else if quality_filter a = ''1'' then [Term ''remake'' (EsBool False)]
              else if quality_filter a = ''2'' then [Term ''trusted'' (EsBool True)]
              else [Term ''complete'' (EsBool True)]))
    \<and> (\<exists>ft. db_quality_block (TorrentFlags e) (quality_filter a) = Inr ft
         \<and> db_quality_filters ft =
             (if quality_filter a = ''0'' then []
              else if quality_filter a = ''1'' then [Flags_and_is (REMAKE (TorrentFlags e)) False]
              else if quality_filter a = ''2'' then [Flags_and_is (TRUSTED (TorrentFlags e)) True]
              else [Flags_and_is (COMPLETE (TorrentFlags e)) True])))
 \<and> (\<forall>srt m sb mc sc u sl.
        quality_filter a \<in> {''0'', ''1'', ''2'', ''3''}
      \<and> es_sort_block (sort_arg a) (order_arg a) (rss a) = Inr srt
      \<and> es_category_block e (category a) = Inr (m, sb, mc, sc)
      \<and> user_block e (user a) = Inr u
      \<and> es_slice_block (rss a) (page a) (per_page a) (max_search_results a) = Inr sl
      \<longrightarrow> (\<exists>s. search_elastic e a = Inr s))
 \<and> (\<forall>col u m sb mc sc ts ob.
        quality_filter a \<in> {''0'', ''1'', ''2'', ''3''}
      \<and> db_sort_block (sort_arg a) (order_arg a) = Inr col
      \<and> user_block e (user a) = Inr u
      \<and> db_category_block e (category a) = Inr (m, sb, mc, sc)
      \<and> db_term_filters (term_arg a) = Inr ts
      \<and> db_order_block (if rss a then Torrent_id else col)
            (if rss a then ''desc'' else order_arg a) = Inr ob
      \<longrightarrow> (\<exists>q. search_db e a = Inr q))
 \<and> (quality_filter a \<notin> {''0'', ''1'', ''2'', ''3''} \<longrightarrow>
      (if lower (sort_arg a) \<in> {''id'', ''size'', ''seeders'', ''leechers'', ''downloads''}
          \<and> sort_arg a \<notin> {''id'', ''size'', ''seeders'', ''leechers'', ''downloads''}
       then search_elastic e a = Inl (KeyError (sort_arg a))
          \<and> search_db e a = Inl (KeyError (sort_arg a))
       else search_elastic e a = Inl (Abort 400) \<and> search_db e a = Inl (Abort 400)))
 \<and> (\<forall>F ft t.
        es_holds (es_doc F t) (Term ''remake'' (EsBool False)) = (\<not> is_remake F t)
      \<and> sql_holds ft t (Flags_and_is (REMAKE F) False) = (\<not> is_remake F t)
      \<and> es_holds (es_doc F t) (Term ''trusted'' (EsBool True)) = is_trusted F t
      \<and> sql_holds ft t (Flags_and_is (TRUSTED F) True) = is_trusted F t
      \<and> es_holds (es_doc F t) (Term ''complete'' (EsBool True)) = is_complete F t
      \<and> sql_holds ft t (Flags_and_is (COMPLETE F) True) = is_complete F t)"
proof (intro conjI)
  show "\<forall>s. search_elastic e a = Inr s \<longrightarrow>
      quality_filter a \<in> {''0'', ''1'', ''2'', ''3''}
    \<and> (\<exists>u m sb mc sc.
          user_block e (user a) = Inr u
        \<and> es_category_block e (category a) = Inr (m, sb, mc, sc)
        \<and> es_filters s =
            es_visibility u (logged_in_user a) (admin a) (rss a)
              (same_user_block u (logged_in_user a))
            @ es_category_filters m sb mc sc
            @ (if quality_filter a = ''0'' then []
               else if quality_filter a = ''1'' then [Term ''remake'' (EsBool False)]
               else if quality_filter a = ''2'' then [Term ''trusted'' (EsBool True)]
               else [Term ''complete'' (EsBool True)]))"
    by (intro allI impI) (rule es_quality_part)
  show "\<forall>q. search_db e a = Inr q \<longrightarrow>
      quality_filter a \<in> {''0'', ''1'', ''2'', ''3''}
    \<and> (\<exists>u m sb mc sc ts.
          user_block e (user a) = Inr u
        \<and> db_category_block e (category a) = Inr (m, sb, mc, sc)
        \<and> db_term_filters (term_arg a) = Inr ts
        \<and> db_filters q =
            db_visibility (TorrentFlags e) u (logged_in_user a) (admin a) (rss a)
              (same_user_block u (logged_in_user a))
            @ db_category_filters m sb mc sc
            @ (if quality_filter a = ''0'' then []
               else if quality_filter a = ''1'' then [Flags_and_is (REMAKE (TorrentFlags e)) False]
               else if quality_filter a = ''2'' then [Flags_and_is (TRUSTED (TorrentFlags e)) True]
               else [Flags_and_is (COMPLETE (TorrentFlags e)) True])
            @ ts)"
    by (intro allI impI) (rule db_quality_part)
  show "quality_filter a \<in> {''0'', ''1'', ''2'', ''3''} \<longrightarrow>
      (\<exists>n. es_quality_block (quality_filter a) = Inr n
         \<and> es_quality_filters n =
             (if quality_filter a = ''0'' then []
              else if quality_filter a = ''1'' then [Term ''remake'' (EsBool False)]
              else if quality_filter a = ''2'' then [Term ''trusted'' (EsBool True)]
              else [Term ''complete'' (EsBool True)]))
    \<and> (\<exists>ft. db_quality_block (TorrentFlags e) (quality_filter a) = Inr ft
         \<and> db_quality_filters ft =
             (if quality_filter a = ''0'' then []
              else if quality_filter a = ''1'' then [Flags_and_is (REMAKE (TorrentFlags e)) False]
              else if quality_filter a = ''2'' then [Flags_and_is (TRUSTED (TorrentFlags e)) True]
              else [Flags_and_is (COMPLETE (TorrentFlags e)) True]))"
    by (intro impI conjI) (rule quality_accepted_filters; assumption)+
  show "\<forall>srt m sb mc sc u sl.
        quality_filter a \<in> {''0'', ''1'', ''2'', ''3''}
      \<and> es_sort_block (sort_arg a) (order_arg a) (rss a) = Inr srt
      \<and> es_category_block e (category a) = Inr (m, sb, mc, sc)
      \<and> user_block e (user a) = Inr u
      \<and> es_slice_block (rss a) (page a) (per_page a) (max_search_results a) = Inr sl
      \<longrightarrow> (\<exists>s. search_elastic e a = Inr s)"
  proof (intro allI impI; elim conjE)
    fix srt m sb mc sc u sl
    assume "quality_filter a \<in> {''0'', ''1'', ''2'', ''3''}"
      and b: "es_sort_block (sort_arg a) (order_arg a) (rss a) = Inr srt"
        "es_category_block e (category a) = Inr (m, sb, mc, sc)"
        "user_block e (user a) = Inr u"
        "es_slice_block (rss a) (page a) (per_page a) (max_search_results a) = Inr sl"
    then obtain n where "es_quality_block (quality_filter a) = Inr n"
      using quality_accepted(1) by blast
    from search_elastic_InrI [OF b(1) this b(2,3,4)] show "\<exists>s. search_elastic e a = Inr s"
      by blast
  qed
  show "\<forall>col u m sb mc sc ts ob.
        quality_filter a \<in> {''0'', ''1'', ''2'', ''3''}
      \<and> db_sort_block (sort_arg a) (order_arg a) = Inr col
      \<and> user_block e (user a) = Inr u
      \<and> db_category_block e (category a) = Inr (m, sb, mc, sc)
      \<and> db_term_filters (term_arg a) = Inr ts
      \<and> db_order_block (if rss a then Torrent_id else col)
            (if rss a then ''desc'' else order_arg a) = Inr ob
      \<longrightarrow> (\<exists>q. search_db e a = Inr q)"
  proof (intro allI impI; elim conjE)
    fix col u m sb mc sc ts ob
    assume "quality_filter a \<in> {''0'', ''1'', ''2'', ''3''}"
      and b: "db_sort_block (sort_arg a) (order_arg a) = Inr col"
        "user_block e (user a) = Inr u"
        "db_category_block e (category a) = Inr (m, sb, mc, sc)"
        "db_term_filters (term_arg a) = Inr ts"
        "db_order_block (if rss a then Torrent_id else col)
            (if rss a then ''desc'' else order_arg a) = Inr ob"
    then obtain ft where "db_quality_block (TorrentFlags e) (quality_filter a) = Inr ft"
      using quality_accepted(2) by blast
    from search_db_InrI [OF b(1) this b(2,3,4,5)] show "\<exists>q. search_db e a = Inr q"
      by blast
  qed
  show "quality_filter a \<notin> {''0'', ''1'', ''2'', ''3''} \<longrightarrow>
      (if lower (sort_arg a) \<in> {''id'', ''size'', ''seeders'', ''leechers'', ''downloads''}
          \<and> sort_arg a \<notin> {''id'', ''size'', ''seeders'', ''leechers'', ''downloads''}
       then search_elastic e a = Inl (KeyError (sort_arg a))
          \<and> search_db e a = Inl (KeyError (sort_arg a))
       else search_elastic e a = Inl (Abort 400) \<and> search_db e a = Inl (Abort 400))"
  proof (intro impI)
    assume bad: "quality_filter a \<notin> {''0'', ''1'', ''2'', ''3''}"
    show "if lower (sort_arg a) \<in> {''id'', ''size'', ''seeders'', ''leechers'', ''downloads''}
          \<and> sort_arg a \<notin> {''id'', ''size'', ''seeders'', ''leechers'', ''downloads''}
       then search_elastic e a = Inl (KeyError (sort_arg a))
          \<and> search_db e a = Inl (KeyError (sort_arg a))
       else search_elastic e a = Inl (Abort 400) \<and> search_db e a = Inl (Abort 400)"
    proof (cases "lower (sort_arg a) \<in> {''id'', ''size'', ''seeders'', ''leechers'', ''downloads''}
          \<and> sort_arg a \<notin> {''id'', ''size'', ''seeders'', ''leechers'', ''downloads''}")
      case True
      then have low: "lower (sort_arg a) \<in> {''id'', ''size'', ''seeders'', ''leechers'', ''downloads''}"
        and raw: "sort_arg a \<notin> {''id'', ''size'', ''seeders'', ''leechers'', ''downloads''}"
        by blast+
      have "search_elastic e a = Inl (KeyError (sort_arg a))"
        and "search_db e a = Inl (KeyError (sort_arg a))"
        using low raw by (rule sort_lower_only)+
      with True show ?thesis
        by (simp only: if_True simp_thms)
    next
      case False
      then have srt: "lower (sort_arg a) \<in> {''id'', ''size'', ''seeders'', ''leechers'', ''downloads''}
           \<longrightarrow> sort_arg a \<in> {''id'', ''size'', ''seeders'', ''leechers'', ''downloads''}"
        by blast
      have "search_elastic e a = Inl (Abort 400)" and "search_db e a = Inl (Abort 400)"
        using bad srt by (rule quality_rejection)+
      with False show ?thesis
        by (simp only: if_False simp_thms)
    qed
  qed
  show "\<forall>F ft t.
        es_holds (es_doc F t) (Term ''remake'' (EsBool False)) = (\<not> is_remake F t)
      \<and> sql_holds ft t (Flags_and_is (REMAKE F) False) = (\<not> is_remake F t)
      \<and> es_holds (es_doc F t) (Term ''trusted'' (EsBool True)) = is_trusted F t
      \<and> sql_holds ft t (Flags_and_is (TRUSTED F) True) = is_trusted F t
      \<and> es_holds (es_doc F t) (Term ''complete'' (EsBool True)) = is_complete F t
      \<and> sql_holds ft t (Flags_and_is (COMPLETE F) True) = is_complete F t"
    by (intro allI conjI) (rule quality_filters_select)+
qed

theorem quality_filter_resolution_witness:
  "quality_filter (default_args\<lparr>sort_arg := ''ID'', quality_filter := ''9''\<rparr>)
     \<notin> {''0'', ''1'', ''2'', ''3''}
   \<and> search_elastic example_env (default_args\<lparr>sort_arg := ''ID'', quality_filter := ''9''\<rparr>)
       = Inl (KeyError ''ID'')
   \<and> search_db example_env (default_args\<lparr>sort_arg := ''ID'', quality_filter := ''9''\<rparr>)
       = Inl (KeyError ''ID'')
   \<and> search_elastic example_env (default_args\<lparr>quality_filter := ''9''\<rparr>) = Inl (Abort 400)
   \<and> search_db example_env (default_args\<lparr>quality_filter := ''9''\<rparr>) = Inl (Abort 400)
   \<and> map_sum id es_filters (search_elastic example_env (default_args\<lparr>quality_filter := ''1''\<rparr>))
     = Inr [Term ''deleted'' (EsBool False), Term ''hidden'' (EsBool False),
            Term ''remake'' (EsBool False)]
   \<and> map_sum id db_filters (search_db example_env (default_args\<lparr>quality_filter := ''1''\<rparr>))
     = Inr [Flags_and_is 32 False, Flags_and_is 2 False, Flags_and_is 8 False]"
proof -
  let ?a9 = "default_args\<lparr>quality_filter := ''9''\<rparr>"
  let ?b9 = "default_args\<lparr>sort_arg := ''ID'', quality_filter := ''9''\<rparr>"
  have ha: "quality_filter ?a9 \<notin> {''0'', ''1'', ''2'', ''3''}"
    and hb: "quality_filter ?b9 \<notin> {''0'', ''1'', ''2'', ''3''}"
    by (simp_all add: default_args_def)
  note rej = conjunct2 [THEN conjunct2, THEN conjunct2, THEN conjunct2, THEN conjunct2,
      THEN conjunct1]
  note ra = quality_filter_resolution [of example_env ?a9, THEN rej, rule_format, OF ha]
  note rb = quality_filter_resolution [of example_env ?b9, THEN rej, rule_format, OF hb]
  have sa: "sort_arg ?a9 = ''id''" and sb: "sort_arg ?b9 = ''ID''"
    by (simp_all add: default_args_def)
  from ra have a: "search_elastic example_env ?a9 = Inl (Abort 400)
                 \<and> search_db example_env ?a9 = Inl (Abort 400)"
    unfolding sa by (simp add: lower_examples)
  from rb have b: "search_elastic example_env ?b9 = Inl (KeyError ''ID'')
                 \<and> search_db example_env ?b9 = Inl (KeyError ''ID'')"
    unfolding sb by (simp add: lower_examples)
  show ?thesis
    using a b hb by (simp add: search_elastic_quality_1 search_db_quality_1)
qed

section \<open>The sort parameter and letter case\<close>

text \<open>
  Claim C9. A sort parameter that is one of the five keys only after lowering (such as
  \<open>ID\<close> or \<open>Seeders\<close>) passes the membership test of both functions, which looks at
  the lowered string, and then fails the dictionary lookup, which uses the string as
  given: both calls end in an uncaught \<^verbatim>\<open>KeyError\<close>, whatever the other arguments
  are, and neither in the 400 rejection nor in a query.
\<close>

theorem sort_case_KeyError:
  assumes "lower (sort_arg a) \<in> {''id'', ''size'', ''seeders'', ''leechers'', ''downloads''}"
    and "sort_arg a \<notin> {''id'', ''size'', ''seeders'', ''leechers'', ''downloads''}"
  shows "search_elastic e a = Inl (KeyError (sort_arg a))
       \<and> search_db e a = Inl (KeyError (sort_arg a))"
proof
  have low: "map_of es_sort_keys (lower (sort_arg a)) \<noteq> None"
       "map_of sort_keys (lower (sort_arg a)) \<noteq> None"
    using assms(1) by (auto simp: es_sort_keys_def sort_keys_def)
  have raw: "map_of es_sort_keys (sort_arg a) = None" "map_of sort_keys (sort_arg a) = None"
    using assms(2) by (auto simp: es_sort_keys_def sort_keys_def)
  have "es_sort_block (sort_arg a) (order_arg a) (rss a) = Inl (KeyError (sort_arg a))"
    using low(1) raw(1) by (simp add: es_sort_block_def Let_def)
  then show "search_elastic e a = Inl (KeyError (sort_arg a))"
    by (simp add: search_elastic_def)
  have "db_sort_block (sort_arg a) (order_arg a) = Inl (KeyError (sort_arg a))"
    using low(2) raw(2) by (simp add: db_sort_block_def Let_def)
  then show "search_db e a = Inl (KeyError (sort_arg a))"
    by (simp add: search_db_def)
qed

theorem sort_case_KeyError_witness:
  "lower ''ID'' \<in> {''id'', ''size'', ''seeders'', ''leechers'', ''downloads''}
   \<and> ''ID'' \<notin> {''id'', ''size'', ''seeders'', ''leechers'', ''downloads''}
   \<and> search_elastic example_env (default_args\<lparr>sort_arg := ''ID''\<rparr>) = Inl (KeyError ''ID'')
   \<and> search_db example_env (default_args\<lparr>sort_arg := ''ID''\<rparr>) = Inl (KeyError ''ID'')"
  using sort_case_KeyError [of "default_args\<lparr>sort_arg := ''ID''\<rparr>" example_env]
  by (simp add: lower_examples)

section \<open>The order parameter and letter case\<close>

text \<open>
  Claim C10, as amended. Let the order parameter be \<open>desc\<close> only after lowering (such as
  \<open>DESC\<close>). The order check of both functions accepts it. For a request that is not
  RSS, \<^verbatim>\<open>search_elastic\<close> compares the string as given with \<open>desc\<close>, adds no \<open>-\<close>
  prefix and compiles an ascending sort on the caller's key; \<^verbatim>\<open>search_db\<close> passes the
  string as given to \<^verbatim>\<open>getattr\<close>, which raises \<^verbatim>\<open>AttributeError\<close> once all earlier
  steps have passed, so it compiles no query. For an RSS request both functions have
  replaced the order by \<open>desc\<close> before that point and sort descending.
\<close>

theorem order_case_sort_direction:
  assumes "lower (order_arg a) = ''desc''" and "order_arg a \<noteq> ''desc''"
  shows
    "(\<forall>k. map_of es_sort_keys (sort_arg a) = Some k \<longrightarrow>
        es_sort_block (sort_arg a) (order_arg a) (rss a) = Inr (if rss a then ''-'' @ k else k))
   \<and> (\<forall>s. search_elastic e a = Inr s \<longrightarrow>
        (\<exists>k. map_of es_sort_keys (sort_arg a) = Some k
           \<and> es_sort s = (if rss a then ''-'' @ k else k)))
   \<and> (\<forall>c. map_of sort_keys (sort_arg a) = Some c \<longrightarrow>
        db_sort_block (sort_arg a) (order_arg a) = Inr c)
   \<and> (\<not> rss a \<longrightarrow> (\<forall>q. search_db e a \<noteq> Inr q))
   \<and> (\<forall>c ft u r ts.
        \<not> rss a
      \<and> db_sort_block (sort_arg a) (order_arg a) = Inr c
      \<and> db_quality_block (TorrentFlags e) (quality_filter a) = Inr ft
      \<and> user_block e (user a) = Inr u
      \<and> db_category_block e (category a) = Inr r
      \<and> db_term_filters (term_arg a) = Inr ts
      \<longrightarrow> search_db e a = Inl (AttributeError (order_arg a)))
   \<and> (rss a \<longrightarrow> (\<forall>q. search_db e a = Inr q \<longrightarrow> db_order_by q = Desc Torrent_id))"
proof -
  have ok: "map_of order_keys (lower (order_arg a)) \<noteq> None"
    using assms(1) by (simp add: order_keys_def)
  have not_asc: "order_arg a \<noteq> ''asc''"
    using assms(1) by (auto simp: lower_examples)
  have dir: "\<And>k. (if ''desc'' = (if rss a then ''desc'' else order_arg a) then ''-'' @ k else k)
               = (if rss a then ''-'' @ k else k)"
    using assms(2) by auto
  have A: "\<forall>k. map_of es_sort_keys (sort_arg a) = Some k \<longrightarrow>
        es_sort_block (sort_arg a) (order_arg a) (rss a) = Inr (if rss a then ''-'' @ k else k)"
    using es_sort_block_key [OF _ ok, of "sort_arg a" _ "rss a"] dir by simp
  have B: "\<forall>s. search_elastic e a = Inr s \<longrightarrow>
        (\<exists>k. map_of es_sort_keys (sort_arg a) = Some k
           \<and> es_sort s = (if rss a then ''-'' @ k else k))"
  proof (intro allI impI)
    fix s assume "search_elastic e a = Inr s"
    then obtain srt where "es_sort_block (sort_arg a) (order_arg a) (rss a) = Inr srt"
      and "es_sort s = srt"
      by (rule search_elastic_InrD) simp
    with es_sort_block_Inr [of "sort_arg a" "order_arg a" "rss a" srt] dir
    show "\<exists>k. map_of es_sort_keys (sort_arg a) = Some k
           \<and> es_sort s = (if rss a then ''-'' @ k else k)"
      by auto
  qed
  have C: "\<forall>c. map_of sort_keys (sort_arg a) = Some c \<longrightarrow>
        db_sort_block (sort_arg a) (order_arg a) = Inr c"
    using db_sort_block_key [OF _ ok] by blast
  have D: "\<not> rss a \<longrightarrow> (\<forall>q. search_db e a \<noteq> Inr q)"
    using search_db_order_AttributeError(1) [OF _ assms(2) not_asc] by blast
  have E: "\<forall>c ft u r ts.
        \<not> rss a
      \<and> db_sort_block (sort_arg a) (order_arg a) = Inr c
      \<and> db_quality_block (TorrentFlags e) (quality_filter a) = Inr ft
      \<and> user_block e (user a) = Inr u
      \<and> db_category_block e (category a) = Inr r
      \<and> db_term_filters (term_arg a) = Inr ts
      \<longrightarrow> search_db e a = Inl (AttributeError (order_arg a))"
    using search_db_order_AttributeError(2) [OF _ assms(2) not_asc] by blast
  have F: "rss a \<longrightarrow> (\<forall>q. search_db e a = Inr q \<longrightarrow> db_order_by q = Desc Torrent_id)"
    using search_db_rss_order by blast
  from A B C D E F show ?thesis by (intro conjI)
qed

theorem order_case_sort_direction_witness:
  "lower ''DESC'' = ''desc'' \<and> ''DESC'' \<noteq> ''desc''
   \<and> map_sum id es_sort (search_elastic example_env (default_args\<lparr>order_arg := ''DESC''\<rparr>))
       = Inr ''id''
   \<and> search_db example_env (default_args\<lparr>order_arg := ''DESC''\<rparr>) = Inl (AttributeError ''DESC'')"
proof -
  let ?a = "default_args\<lparr>order_arg := ''DESC''\<rparr>"
  have h1: "lower (order_arg ?a) = ''desc''" and h2: "order_arg ?a \<noteq> ''desc''"
    by (simp_all add: lower_examples)
  have nr: "\<not> rss ?a" by (simp add: default_args_def)
  from order_case_sort_direction [OF h1 h2, of example_env, THEN conjunct2, THEN conjunct2,
      THEN conjunct2, THEN conjunct1, rule_format, OF nr]
  have "\<And>q. search_db example_env ?a \<noteq> Inr q" .
  then show ?thesis
    by (simp add: search_elastic_DESC search_db_DESC lower_examples)
qed

text \<open>
  The claim as first stated, for every request, fails under RSS: with order \<open>DESC\<close>
  the index query is sorted by \<open>-id\<close>, descending, and the datastore query is ordered
  by id descending.
\<close>

theorem order_case_rss_counterexample:
  "lower ''DESC'' = ''desc'' \<and> ''DESC'' \<noteq> ''desc''
   \<and> search_elastic example_env (default_args\<lparr>order_arg := ''DESC'', rss := True\<rparr>) =
       Inr \<lparr> es_index = Some ''nyaa'', es_query = None,
             es_filters = [Term ''deleted'' (EsBool False), Term ''hidden'' (EsBool False)],
             es_sort = ''-id'', es_slice = (0, 75), es_highlight = False \<rparr>
   \<and> search_db example_env (default_args\<lparr>order_arg := ''DESC'', rss := True\<rparr>) =
       Inr \<lparr> db_base = Torrent,
             db_filters = [Flags_and_is 32 False, Flags_and_is 2 False],
             db_joins = [], db_order_by = Desc Torrent_id, db_paging = Limit 75 \<rparr>"
  by code_simp

end
